theory Spec2Isabelle
  imports Complex_Main "HOL-Library.Sublist" "HOL-Library.Char_ord" "HOL-Library.List_Lexorder"
begin

section \<open>Strings\<close>

text \<open>
  Python strings are modelled as \<open>string\<close>; a character stands for a code point below 256.
  \<open>py_isspace\<close> lists the code points below 256 that \<open>str.strip()\<close> removes,
  \<open>py_lower\<close> is \<open>str.lower()\<close> on these code points (the letters A to Z and the capital
  letters of Latin-1),
  \<open>py_join\<close> is \<open>sep.join(parts)\<close> and \<open>py_in\<close> is the substring test \<open>sub in s\<close>.
\<close>

definition py_isspace :: "char \<Rightarrow> bool" where
  "py_isspace c = (of_char c \<in> {9, 10, 11, 12, 13, 28, 29, 30, 31, 32, 133, 160 :: nat})"

definition py_strip :: "string \<Rightarrow> string" where
  "py_strip s = rev (dropWhile py_isspace (rev (dropWhile py_isspace s)))"

definition py_lower_char :: "char \<Rightarrow> char" where
  "py_lower_char c =
     (let n = (of_char c :: nat)
      in if (65 \<le> n \<and> n \<le> 90) \<or> (192 \<le> n \<and> n \<le> 214) \<or> (216 \<le> n \<and> n \<le> 222)
         then char_of (n + 32) else c)"

definition py_lower :: "string \<Rightarrow> string" where
  "py_lower s = map py_lower_char s"

fun py_join :: "string \<Rightarrow> string list \<Rightarrow> string" where
  "py_join sep [] = []"
| "py_join sep [x] = x"
| "py_join sep (x # y # zs) = x @ sep @ py_join sep (y # zs)"

definition py_in :: "string \<Rightarrow> string \<Rightarrow> bool" where
  "py_in sub s = sublist sub s"

definition digit_char :: "nat \<Rightarrow> char" where
  "digit_char d = ''0123456789'' ! d"

fun decimal :: "nat \<Rightarrow> string" where
  "decimal n = (if n < 10 then [digit_char n] else decimal (n div 10) @ [digit_char (n mod 10)])"

declare decimal.simps [simp del]

text \<open>The format specification \<open>:03d\<close>: decimal, padded with zeros to width three.\<close>

definition fmt03d :: "nat \<Rightarrow> string" where
  "fmt03d n = (let s = decimal n in replicate (3 - length s) (CHR ''0'') @ s)"

section \<open>Content blocks and chunks\<close>

text \<open>
  A content block is the dictionary built by \<open>extract_structured_content\<close>. Of its keys the
  chunker reads \<open>type\<close>, \<open>content\<close> and, for code, \<open>language\<close>, which may be missing
  (\<open>block.get('language', '')\<close> is then the empty string), present with the value \<open>None\<close>
  (the f-string prints it as \<open>None\<close>) or present with a string.
\<close>

datatype language_entry = NoLanguageKey | LanguageNone | Language string

record content_block =
  b_type :: string
  b_content :: string
  b_language :: language_entry
  b_section :: "string option"

text \<open>
  \<open>DocumentChunk\<close>. The two entries that \<open>create_chunk\<close> adds to the metadata dictionary are
  fields of their own; the front-matter entries copied along, the embedding (absent at
  creation) and the \<open>last_updated\<close> clock reading are left out.
\<close>

record document_chunk =
  chunk_id :: string
  content :: string
  source_file :: string
  title :: string
  chunk_section :: "string option"
  url :: "string option"
  token_count :: nat
  content_types :: "string list"

text \<open>
  The tokenizer is the injected collaborator \<open>len(self.encoding.encode(text))\<close>: any function
  from strings to token counts.
\<close>

type_synonym tokenizer = "string \<Rightarrow> nat"

text \<open>The sum of the token counts of the blocks of a buffer, as the chunker measures it.\<close>

definition buffer_tokens :: "tokenizer \<Rightarrow> content_block list \<Rightarrow> nat" where
  "buffer_tokens tok bs = sum_list (map (\<lambda>b. tok (b_content b)) bs)"

subsection \<open>combine_blocks\<close>

definition language_text :: "language_entry \<Rightarrow> string" where
  "language_text l = (case l of NoLanguageKey \<Rightarrow> '''' | LanguageNone \<Rightarrow> ''None'' | Language s \<Rightarrow> s)"

text \<open>The string appended to \<open>combined\<close> for one block: the body of the loop of \<open>combine_blocks\<close>.\<close>

definition block_piece :: "content_block \<Rightarrow> string" where
  "block_piece b =
     (if b_type b = ''heading'' then ''\<newline>## '' @ b_content b @ ''\<newline>''
      else if b_type b = ''code'' then
        ''\<newline>```'' @ language_text (b_language b) @ ''\<newline>'' @ b_content b @ ''\<newline>```\<newline>''
      else if b_type b = ''list'' then ''\<newline>'' @ b_content b @ ''\<newline>''
      else if b_type b = ''table'' then ''\<newline>'' @ b_content b @ ''\<newline>''
      else b_content b)"

definition combine_blocks :: "content_block list \<Rightarrow> string" where
  "combine_blocks blocks = py_strip (py_join ''\<newline>'' (map block_piece blocks))"

subsection \<open>get_overlap_blocks\<close>

text \<open>
  The loop over \<open>reversed(blocks)\<close>: \<open>overlap_tokens\<close> and \<open>overlap_blocks\<close> are the
  accumulators, \<open>insert(0, block)\<close> puts the block in front, and the first block that does
  not fit ends the loop (\<open>break\<close>).
\<close>

fun overlap_loop :: "tokenizer \<Rightarrow> nat \<Rightarrow> content_block list \<Rightarrow> nat \<Rightarrow> content_block list
    \<Rightarrow> content_block list" where
  "overlap_loop tok chunk_overlap [] overlap_tokens overlap_blocks = overlap_blocks"
| "overlap_loop tok chunk_overlap (block # rest) overlap_tokens overlap_blocks =
     (if overlap_tokens + tok (b_content block) \<le> chunk_overlap
      then overlap_loop tok chunk_overlap rest (overlap_tokens + tok (b_content block))
             (block # overlap_blocks)
      else overlap_blocks)"

definition get_overlap_blocks :: "tokenizer \<Rightarrow> nat \<Rightarrow> content_block list \<Rightarrow> content_block list" where
  "get_overlap_blocks tok chunk_overlap blocks =
     (if blocks = [] then [] else overlap_loop tok chunk_overlap (rev blocks) 0 [])"

subsection \<open>create_chunk and analyze_content_types\<close>

definition analyze_content_types :: "string \<Rightarrow> string list" where
  "analyze_content_types c =
     (if py_in ''```'' c then [''code''] else []) @
     (if \<exists>keyword \<in> set [''api'', ''endpoint'', ''/api/'']. py_in keyword (py_lower c)
      then [''api''] else []) @
     (if \<exists>keyword \<in> set [''install'', ''setup'', ''configure'']. py_in keyword (py_lower c)
      then [''setup''] else []) @
     (if \<exists>keyword \<in> set [''example'', ''tutorial'', ''how to'']. py_in keyword (py_lower c)
      then [''tutorial''] else []) @
     (if \<exists>keyword \<in> set [''error'', ''troubleshoot'', ''problem'']. py_in keyword (py_lower c)
      then [''troubleshooting''] else [])"

text \<open>
  \<open>create_chunk\<close>. The URL is read from the front matter or built from the file path and the
  section; that computation is the parameter \<open>url_of\<close>, a function of the section.
\<close>

definition create_chunk :: "tokenizer \<Rightarrow> (string option \<Rightarrow> string) \<Rightarrow> string \<Rightarrow> string \<Rightarrow> string
    \<Rightarrow> string \<Rightarrow> string option \<Rightarrow> document_chunk" where
  "create_chunk tok url_of cid chunk_content file_path doc_title sec =
     \<lparr> chunk_id = cid, content = chunk_content, source_file = file_path, title = doc_title,
       chunk_section = sec, url = Some (url_of sec), token_count = tok chunk_content,
       content_types = analyze_content_types chunk_content \<rparr>"

subsection \<open>create_contextual_chunks\<close>

text \<open>
  The loop of \<open>create_contextual_chunks\<close> over the remaining blocks, with the variables
  \<open>chunks\<close>, \<open>current_chunk\<close>, \<open>current_size\<close> and \<open>current_section\<close> as arguments; the first
  equation is the code after the loop. What is appended to \<open>chunks\<close> when a buffer is
  closed is computed by \<open>emit\<close> from \<open>len(chunks)\<close>, the buffer and the current section, so
  that the same loop yields the chunks (\<open>create_contextual_chunks\<close>) and the buffers they
  were made of (\<open>chunk_buffers\<close>).
\<close>

fun chunk_loop :: "(nat \<Rightarrow> content_block list \<Rightarrow> string option \<Rightarrow> 'c) \<Rightarrow> tokenizer \<Rightarrow> nat \<Rightarrow> nat
    \<Rightarrow> content_block list \<Rightarrow> 'c list \<Rightarrow> content_block list \<Rightarrow> nat \<Rightarrow> string option \<Rightarrow> 'c list" where
  "chunk_loop emit tok chunk_size chunk_overlap [] chunks current_chunk current_size current_section =
     (if current_chunk \<noteq> [] then chunks @ [emit (length chunks) current_chunk current_section]
      else chunks)"
| "chunk_loop emit tok chunk_size chunk_overlap (block # rest) chunks current_chunk current_size
       current_section =
     (let block_tokens = tok (b_content block);
          current_section = (if b_type block = ''heading'' then Some (b_content block)
                             else current_section)
      in if current_size + block_tokens > chunk_size \<and> current_chunk \<noteq> [] then
           (let chunks = chunks @ [emit (length chunks) current_chunk current_section];
                overlap_blocks = get_overlap_blocks tok chunk_overlap current_chunk;
                current_chunk = overlap_blocks @ [block];
                current_size = sum_list (map (\<lambda>b. tok (b_content b)) current_chunk)
            in chunk_loop emit tok chunk_size chunk_overlap rest chunks current_chunk current_size
                 current_section)
         else chunk_loop emit tok chunk_size chunk_overlap rest chunks (current_chunk @ [block])
                (current_size + block_tokens) current_section)"

text \<open>
  \<open>chunk_id_base\<close> is the first eight hexadecimal digits of the MD5 digest of the file path,
  taken as given.
\<close>

definition create_contextual_chunks :: "tokenizer \<Rightarrow> (string option \<Rightarrow> string) \<Rightarrow> string \<Rightarrow> nat \<Rightarrow> nat
    \<Rightarrow> content_block list \<Rightarrow> string \<Rightarrow> string \<Rightarrow> document_chunk list" where
  "create_contextual_chunks tok url_of chunk_id_base chunk_size chunk_overlap content_blocks
       file_path doc_title =
     chunk_loop
       (\<lambda>n current_chunk current_section.
          create_chunk tok url_of (chunk_id_base @ ''_'' @ fmt03d n) (combine_blocks current_chunk)
            file_path doc_title current_section)
       tok chunk_size chunk_overlap content_blocks [] [] 0 None"

text \<open>The block sequence of every chunk, in the order the chunks are emitted.\<close>

definition chunk_buffers :: "tokenizer \<Rightarrow> nat \<Rightarrow> nat \<Rightarrow> content_block list \<Rightarrow> content_block list list" where
  "chunk_buffers tok chunk_size chunk_overlap content_blocks =
     chunk_loop (\<lambda>n current_chunk current_section. current_chunk)
       tok chunk_size chunk_overlap content_blocks [] [] 0 None"

subsection \<open>Properties of the chunker, as predicates\<close>

text \<open>
  \<open>seeded_by prev next\<close>: the buffer \<open>next\<close> starts with the overlap blocks that
  \<open>get_overlap_blocks\<close> selects from \<open>prev\<close>, followed by at least one more block.
\<close>

definition seeded_by :: "tokenizer \<Rightarrow> nat \<Rightarrow> content_block list \<Rightarrow> content_block list \<Rightarrow> bool" where
  "seeded_by tok chunk_overlap prev next =
     (\<exists>rest. rest \<noteq> [] \<and> next = get_overlap_blocks tok chunk_overlap prev @ rest)"

text \<open>
  \<open>within_budget buf\<close>: the token counts of the blocks of \<open>buf\<close> add up to at most
  \<open>chunk_size\<close>, or \<open>buf\<close> is a seed: overlap blocks of at most \<open>chunk_overlap\<close> tokens (possibly
  none) followed by one block.
\<close>

definition within_budget :: "tokenizer \<Rightarrow> nat \<Rightarrow> nat \<Rightarrow> content_block list \<Rightarrow> bool" where
  "within_budget tok chunk_size chunk_overlap buf =
     (buffer_tokens tok buf \<le> chunk_size \<or>
      (\<exists>ov b. buf = ov @ [b] \<and> buffer_tokens tok ov \<le> chunk_overlap))"

subsection \<open>Example documents\<close>

definition text_block :: "string \<Rightarrow> content_block" where
  "text_block s = \<lparr> b_type = ''text'', b_content = s, b_language = NoLanguageKey, b_section = None \<rparr>"

text \<open>The tokenizer of the examples counts characters.\<close>

definition char_tokens :: tokenizer where
  "char_tokens s = length s"

definition example_blocks :: "content_block list" where
  "example_blocks = [text_block ''aaaaa'', text_block ''bbbbbbbb'', text_block ''c'']"

definition oversized_blocks :: "content_block list" where
  "oversized_blocks = [text_block ''aaaaa'', text_block ''bbbbbbbbbbb'']"

section \<open>Search results, fusion and ranking\<close>

text \<open>
  \<open>SearchResult\<close>. Scores are Python floats; they are modelled as real numbers, so the
  rounding of floating-point arithmetic is not part of the model.
\<close>

record search_result =
  chunk :: document_chunk
  score :: real
  relevance_type :: string

text \<open>
  Exceptions are values: a failed dictionary lookup, or an exception raised by an
  external collaborator (the embedding model, the stores, the answer generator), with
  its message. \<open>str_exception\<close> is \<open>str(e)\<close>.
\<close>

datatype py_exception = KeyError string | RaisedError string

definition str_exception :: "py_exception \<Rightarrow> string" where
  "str_exception e = (case e of KeyError k \<Rightarrow> [CHR 0x27] @ k @ [CHR 0x27] | RaisedError m \<Rightarrow> m)"

text \<open>
  A Python dictionary keeps its keys in insertion order, and assigning to a key that is
  present keeps the key's position: an association list with \<open>dict_set\<close> for
  \<open>d[k] = v\<close> and \<open>map_of d k\<close> for the lookup.
\<close>

fun dict_set :: "'k \<Rightarrow> 'v \<Rightarrow> ('k \<times> 'v) list \<Rightarrow> ('k \<times> 'v) list" where
  "dict_set k v [] = [(k, v)]"
| "dict_set k v ((k', v') # d) = (if k' = k then (k, v) # d else (k', v') # dict_set k v d)"

text \<open>
  \<open>sorted(xs, key=f, reverse=True)\<close> and \<open>xs.sort(key=f, reverse=True)\<close>: descending by key,
  and stable (elements with equal keys keep their order).
\<close>

definition py_sorted_reverse :: "('a \<Rightarrow> real) \<Rightarrow> 'a list \<Rightarrow> 'a list" where
  "py_sorted_reverse f xs = sort_key (\<lambda>x. - f x) xs"

subsection \<open>combine_search_results\<close>

type_synonym fusion_state = "(string \<times> real) list \<times> (string \<times> search_result) list"

text \<open>The first loop: \<open>combined_scores\<close> and \<open>all_results\<close> are the accumulators.\<close>

fun add_semantic_results :: "real \<Rightarrow> search_result list \<Rightarrow> fusion_state \<Rightarrow> fusion_state" where
  "add_semantic_results semantic_weight [] st = st"
| "add_semantic_results semantic_weight (result # rest) (combined_scores, all_results) =
     (let doc_id = chunk_id (chunk result)
      in add_semantic_results semantic_weight rest
           (dict_set doc_id (semantic_weight * score result) combined_scores,
            dict_set doc_id result all_results))"

text \<open>
  The second loop. \<open>all_results[doc_id].relevance_type = 'hybrid'\<close> relabels the result
  stored under \<open>doc_id\<close>; the lookup raises \<open>KeyError\<close> when the key is missing.
\<close>

fun add_keyword_results :: "real \<Rightarrow> search_result list \<Rightarrow> fusion_state
    \<Rightarrow> py_exception + fusion_state" where
  "add_keyword_results keyword_weight [] st = Inr st"
| "add_keyword_results keyword_weight (result # rest) (combined_scores, all_results) =
     (let doc_id = chunk_id (chunk result)
      in case map_of combined_scores doc_id of
           Some s \<Rightarrow>
             (case map_of all_results doc_id of
                None \<Rightarrow> Inl (KeyError doc_id)
              | Some stored \<Rightarrow>
                  add_keyword_results keyword_weight rest
                    (dict_set doc_id (s + keyword_weight * score result) combined_scores,
                     dict_set doc_id (stored\<lparr>relevance_type := ''hybrid''\<rparr>) all_results))
         | None \<Rightarrow>
             add_keyword_results keyword_weight rest
               (dict_set doc_id (keyword_weight * score result) combined_scores,
                dict_set doc_id (result\<lparr>relevance_type := ''keyword''\<rparr>) all_results))"

text \<open>
  The last loop, over the keys sorted by their combined score. The sort runs over the
  items of \<open>combined_scores\<close>, each key next to the score the key function looks up.
\<close>

fun collect_results :: "(string \<times> real) list \<Rightarrow> (string \<times> search_result) list
    \<Rightarrow> py_exception + search_result list" where
  "collect_results [] all_results = Inr []"
| "collect_results ((doc_id, s) # rest) all_results =
     (case map_of all_results doc_id of
        None \<Rightarrow> Inl (KeyError doc_id)
      | Some result \<Rightarrow>
          (case collect_results rest all_results of
             Inl e \<Rightarrow> Inl e
           | Inr final_results \<Rightarrow> Inr (result\<lparr>score := s\<rparr> # final_results)))"

definition combine_search_results :: "search_result list \<Rightarrow> search_result list \<Rightarrow> real \<Rightarrow> real
    \<Rightarrow> py_exception + search_result list" where
  "combine_search_results semantic_results keyword_results semantic_weight keyword_weight =
     (case add_keyword_results keyword_weight keyword_results
             (add_semantic_results semantic_weight semantic_results ([], [])) of
        Inl e \<Rightarrow> Inl e
      | Inr (combined_scores, all_results) \<Rightarrow>
          collect_results (py_sorted_reverse snd combined_scores) all_results)"

subsection \<open>The external collaborators of the vector store and of the RAG system\<close>

text \<open>
  \<open>'vs\<close> is the state of the vector store (the ChromaDB collection, the FAISS index and
  \<open>chunk_ids\<close>), \<open>'vec\<close> the type of embeddings. The collaborators are parameters:
  \<^item> \<open>encode_query\<close>: \<open>self.embeddings_model.encode([query])\<close>, which may raise;
  \<^item> \<open>semantic_lookup\<close>: the rest of \<open>VectorStore.search\<close> (normalisation, FAISS search,
    ChromaDB lookup, filters, sort and cut), for a query embedding, \<open>top_k\<close> and filters;
  \<^item> \<open>keyword_search\<close>: \<open>VectorStore.keyword_search\<close> (TF-IDF over the collection);
  \<^item> \<open>index_documents\<close>: \<open>VectorStore.index_documents\<close>, which acts on the vector store only;
  \<^item> \<open>generate_response\<close>: the answer generator;
  \<^item> \<open>md5_hexdigest\<close>: \<open>hashlib.md5(s.encode()).hexdigest()\<close>.
\<close>

type_synonym filters = "(string \<times> string list) list"

record rag_source =
  src_title :: string
  src_section :: "string option"
  src_url :: "string option"
  src_relevance_score :: real
  src_relevance_type :: string

record rag_response =
  rr_query :: string
  answer :: string
  sources :: "rag_source list"
  confidence :: real
  response_time :: real
  tokens_used :: nat

record ('vs, 'vec) collaborators =
  encode_query :: "string \<Rightarrow> py_exception + 'vec"
  semantic_lookup :: "'vs \<Rightarrow> 'vec \<Rightarrow> nat \<Rightarrow> filters option \<Rightarrow> py_exception + search_result list"
  keyword_search :: "'vs \<Rightarrow> string \<Rightarrow> nat \<Rightarrow> py_exception + search_result list"
  index_documents :: "document_chunk list \<Rightarrow> 'vs \<Rightarrow> py_exception + 'vs"
  generate_response :: "string \<Rightarrow> search_result list \<Rightarrow> py_exception + rag_response"
  md5_hexdigest :: "string \<Rightarrow> string"

subsection \<open>VectorStore.search and VectorStore.hybrid_search\<close>

definition search :: "('vs, 'vec) collaborators \<Rightarrow> 'vs \<Rightarrow> string \<Rightarrow> nat \<Rightarrow> filters option
    \<Rightarrow> py_exception + search_result list" where
  "search ext vs query_text top_k fs =
     (case encode_query ext query_text of
        Inl e \<Rightarrow> Inl e
      | Inr query_embedding \<Rightarrow> semantic_lookup ext vs query_embedding top_k fs)"

definition hybrid_search :: "('vs, 'vec) collaborators \<Rightarrow> 'vs \<Rightarrow> string \<Rightarrow> nat \<Rightarrow> real \<Rightarrow> real
    \<Rightarrow> py_exception + search_result list" where
  "hybrid_search ext vs query_text top_k semantic_weight keyword_weight =
     (case search ext vs query_text (top_k * 2) None of
        Inl e \<Rightarrow> Inl e
      | Inr semantic_results \<Rightarrow>
          (case keyword_search ext vs query_text (top_k * 2) of
             Inl e \<Rightarrow> Inl e
           | Inr keyword_results \<Rightarrow>
               (case combine_search_results semantic_results keyword_results
                       semantic_weight keyword_weight of
                  Inl e \<Rightarrow> Inl e
                | Inr combined_results \<Rightarrow> Inr (take top_k combined_results))))"

subsection \<open>Context types, filters, and filter_and_rank_results\<close>

definition any_keyword_in :: "string list \<Rightarrow> string \<Rightarrow> bool" where
  "any_keyword_in keywords s = list_ex (\<lambda>keyword. py_in keyword s) keywords"

definition determine_context_type :: "string \<Rightarrow> string" where
  "determine_context_type question =
     (let question_lower = py_lower question
      in if any_keyword_in [''api'', ''endpoint'', ''curl'', ''request'', ''response''] question_lower
         then ''api''
         else if any_keyword_in [''install'', ''setup'', ''configure'', ''deploy''] question_lower
         then ''setup''
         else if any_keyword_in [''code'', ''example'', ''implement'', ''integrate''] question_lower
         then ''tutorial''
         else if any_keyword_in [''error'', ''problem'', ''issue'', ''troubleshoot''] question_lower
         then ''troubleshooting''
         else ''general'')"

definition create_search_filters :: "string \<Rightarrow> string \<Rightarrow> filters" where
  "create_search_filters question context_type =
     (if context_type = ''api'' then [(''content_types'', [''api''])]
      else if context_type = ''setup'' then [(''content_types'', [''setup''])]
      else if context_type = ''tutorial'' then [(''content_types'', [''tutorial'', ''code''])]
      else if context_type = ''troubleshooting'' then [(''content_types'', [''troubleshooting''])]
      else [])"

text \<open>The body of the boosting loop of \<open>filter_and_rank_results\<close>, for one result.\<close>

definition boost_result :: "string \<Rightarrow> search_result \<Rightarrow> search_result" where
  "boost_result context_type result =
     (let cts = content_types (chunk result)
      in if context_type = ''api'' \<and> ''api'' \<in> set cts
         then result\<lparr>score := score result * 1.2\<rparr>
         else if context_type = ''tutorial'' \<and> ''code'' \<in> set cts
         then result\<lparr>score := score result * 1.2\<rparr>
         else if context_type = ''troubleshooting'' \<and> ''troubleshooting'' \<in> set cts
         then result\<lparr>score := score result * 1.2\<rparr>
         else result)"

text \<open>
  \<open>filter_and_rank_results\<close>. The results are distinct objects, one for each chunk id, as
  \<open>combine_search_results\<close> builds them, so the loop boosts each of them once.
\<close>

definition filter_and_rank_results :: "real \<Rightarrow> search_result list \<Rightarrow> string \<Rightarrow> string \<Rightarrow> filters
    \<Rightarrow> search_result list" where
  "filter_and_rank_results similarity_threshold results question context_type fs =
     (let filtered_results = filter (\<lambda>result. score result \<ge> similarity_threshold) results;
          filtered_results = map (boost_result context_type) filtered_results
      in py_sorted_reverse score filtered_results)"

subsection \<open>RAGSystem.retrieve_context\<close>

definition retrieve_context :: "('vs, 'vec) collaborators \<Rightarrow> real \<Rightarrow> 'vs \<Rightarrow> string \<Rightarrow> nat \<Rightarrow> string
    \<Rightarrow> py_exception + search_result list" where
  "retrieve_context ext similarity_threshold vs question max_chunks context_type =
     (let context_type = (if context_type = ''auto'' then determine_context_type question
                          else context_type);
          fs = create_search_filters question context_type
      in case hybrid_search ext vs question (max_chunks * 2) 0.7 0.3 of
           Inl e \<Rightarrow> Inl e
         | Inr search_results \<Rightarrow>
             Inr (take max_chunks
                    (filter_and_rank_results similarity_threshold search_results question
                       context_type fs)))"

section \<open>The RAG system: response cache, query, indexing\<close>

text \<open>
  A clock reading (\<open>datetime.now()\<close>) is an integer number of microseconds, the resolution
  of \<open>datetime\<close>; \<open>timedelta(hours=h)\<close> is \<open>h\<close> hours in microseconds. Differences and
  comparisons of such values are exact in Python.
\<close>

definition timedelta_hours :: "int \<Rightarrow> int" where
  "timedelta_hours h = h * 3600000000"

record cached_item =
  response :: rag_response
  timestamp :: int

record rag_metrics =
  queries_processed :: nat
  cache_hits :: nat
  avg_response_time :: real
  total_tokens_used :: nat

record 'vs rag_system =
  vector_store :: 'vs
  cache :: "string \<rightharpoonup> cached_item"
  metrics :: rag_metrics

record rag_config =
  similarity_threshold :: real
  cache_ttl_hours :: int

text \<open>
  The clock readings of one call of \<open>query\<close>: \<open>datetime.now()\<close> in \<open>is_cache_valid\<close>,
  \<open>datetime.now()\<close> in \<open>cache_response\<close>, and \<open>time.time() - start_time\<close>.
\<close>

record clock =
  now_lookup :: int
  now_store :: int
  elapsed :: real

definition create_cache_key :: "('vs, 'vec) collaborators \<Rightarrow> string \<Rightarrow> string \<Rightarrow> nat \<Rightarrow> string" where
  "create_cache_key ext question context_type max_chunks =
     md5_hexdigest ext (question @ ''|'' @ context_type @ ''|'' @ decimal max_chunks)"

definition is_cache_valid :: "rag_config \<Rightarrow> int \<Rightarrow> cached_item \<Rightarrow> bool" where
  "is_cache_valid cfg now cached =
     (let age = now - timestamp cached in age < timedelta_hours (cache_ttl_hours cfg))"

text \<open>\<open>cache_response\<close>; writing the cache to disk (\<open>save_cache\<close>) changes no state of the model.\<close>

definition cache_response :: "int \<Rightarrow> 'vs rag_system \<Rightarrow> string \<Rightarrow> rag_response \<Rightarrow> 'vs rag_system" where
  "cache_response now st cache_key resp =
     st\<lparr>cache := (cache st)(cache_key \<mapsto> \<lparr>response = resp, timestamp = now\<rparr>)\<rparr>"

definition update_metrics :: "'vs rag_system \<Rightarrow> rag_response \<Rightarrow> 'vs rag_system" where
  "update_metrics st resp =
     (let m = metrics st;
          count = queries_processed m + 1;
          current_avg = avg_response_time m
      in st\<lparr>metrics := m\<lparr>queries_processed := count,
                          total_tokens_used := total_tokens_used m + tokens_used resp,
                          avg_response_time :=
                            (current_avg * (real count - 1) + response_time resp) / real count\<rparr>\<rparr>)"

text \<open>
  What \<open>query\<close> returns: a response, or the generator of a streaming response over the
  retrieved results.
\<close>

datatype query_result = Response rag_response | Streaming string "search_result list"

text \<open>The response built by the exception handler of \<open>query\<close>.\<close>

definition error_response :: "string \<Rightarrow> py_exception \<Rightarrow> real \<Rightarrow> rag_response" where
  "error_response question e t =
     \<lparr> rr_query = question,
       answer = ''I apologize, but I encountered an error processing your question: '' @
                  str_exception e,
       sources = [], confidence = 0, response_time = t, tokens_used = 0 \<rparr>"

text \<open>The cache check at the start of \<open>query\<close>: the cached response, if present and valid.\<close>

definition cache_lookup :: "rag_config \<Rightarrow> int \<Rightarrow> 'vs rag_system \<Rightarrow> string \<Rightarrow> rag_response option" where
  "cache_lookup cfg now st cache_key =
     (case cache st cache_key of
        None \<Rightarrow> None
      | Some cached_response \<Rightarrow>
          if is_cache_valid cfg now cached_response then Some (response cached_response) else None)"

definition query :: "('vs, 'vec) collaborators \<Rightarrow> rag_config \<Rightarrow> clock \<Rightarrow> 'vs rag_system \<Rightarrow> string
    \<Rightarrow> string \<Rightarrow> nat \<Rightarrow> bool \<Rightarrow> bool \<Rightarrow> query_result \<times> 'vs rag_system" where
  "query ext cfg clk st question context_type max_context_chunks use_cache stream_response =
     (let cache_key = create_cache_key ext question context_type max_context_chunks
      in case (if use_cache then cache_lookup cfg (now_lookup clk) st cache_key else None) of
           Some cached \<Rightarrow>
             (Response cached,
              st\<lparr>metrics := (metrics st)\<lparr>cache_hits := cache_hits (metrics st) + 1\<rparr>\<rparr>)
         | None \<Rightarrow>
             (case retrieve_context ext (similarity_threshold cfg) (vector_store st) question
                     max_context_chunks context_type of
                Inl e \<Rightarrow> (Response (error_response question e (elapsed clk)), st)
              | Inr search_results \<Rightarrow>
                  if stream_response then (Streaming question search_results, st)
                  else
                    (case generate_response ext question search_results of
                       Inl e \<Rightarrow> (Response (error_response question e (elapsed clk)), st)
                     | Inr resp \<Rightarrow>
                         (let resp = resp\<lparr>response_time := elapsed clk\<rparr>;
                              st = (if use_cache
                                    then cache_response (now_store clk) st cache_key resp else st);
                              st = update_metrics st resp
                          in (Response resp, st)))))"

text \<open>
  \<open>index_documentation\<close>. \<open>chunks\<close> is the list that \<open>process_directory\<close> returns for the
  documentation directory.
\<close>

definition index_documentation :: "('vs, 'vec) collaborators \<Rightarrow> 'vs rag_system \<Rightarrow> document_chunk list
    \<Rightarrow> py_exception + 'vs rag_system" where
  "index_documentation ext st chunks =
     (if chunks = [] then Inr st
      else case index_documents ext chunks (vector_store st) of
             Inl e \<Rightarrow> Inl e
           | Inr vs \<Rightarrow> Inr (st\<lparr>vector_store := vs\<rparr>))"

section \<open>The fusion rule as the specification words it, and example inputs\<close>

text \<open>
  The score a result list gives to a chunk id, 0 when the id is absent; the weighted sum of
  the two scores; and the signal label.
\<close>

definition result_ids :: "search_result list \<Rightarrow> string list" where
  "result_ids rs = map (\<lambda>r. chunk_id (chunk r)) rs"

definition score_in :: "search_result list \<Rightarrow> string \<Rightarrow> real" where
  "score_in rs i = (case find (\<lambda>r. chunk_id (chunk r) = i) rs of None \<Rightarrow> 0 | Some r \<Rightarrow> score r)"

definition fused_score :: "real \<Rightarrow> real \<Rightarrow> search_result list \<Rightarrow> search_result list \<Rightarrow> string \<Rightarrow> real" where
  "fused_score semantic_weight keyword_weight sem kw i =
     semantic_weight * score_in sem i + keyword_weight * score_in kw i"

definition signal_label :: "search_result list \<Rightarrow> search_result list \<Rightarrow> string \<Rightarrow> string" where
  "signal_label sem kw i =
     (if i \<in> set (result_ids sem) \<and> i \<in> set (result_ids kw) then ''hybrid''
      else if i \<in> set (result_ids sem) then ''semantic'' else ''keyword'')"

text \<open>
  The fused results in the order in which their chunk ids enter the dictionaries of
  \<open>combine_search_results\<close>: the semantic results, relabelled \<open>hybrid\<close> when the keyword
  search found the chunk too, then the keyword results for chunks the semantic search
  did not return, labelled \<open>keyword\<close>; each with the weighted sum as its score.
\<close>

definition fused_results :: "real \<Rightarrow> real \<Rightarrow> search_result list \<Rightarrow> search_result list
    \<Rightarrow> search_result list" where
  "fused_results semantic_weight keyword_weight sem kw =
     map (\<lambda>r. r\<lparr>score := fused_score semantic_weight keyword_weight sem kw (chunk_id (chunk r)),
                relevance_type := (if chunk_id (chunk r) \<in> set (result_ids kw) then ''hybrid''
                                   else relevance_type r)\<rparr>) sem @
     map (\<lambda>r. r\<lparr>score := fused_score semantic_weight keyword_weight sem kw (chunk_id (chunk r)),
                relevance_type := ''keyword''\<rparr>)
       (filter (\<lambda>r. chunk_id (chunk r) \<notin> set (result_ids sem)) kw)"

subsection \<open>Example hits and collaborators\<close>

definition stored_chunk :: "string \<Rightarrow> string list \<Rightarrow> document_chunk" where
  "stored_chunk cid tags =
     \<lparr> chunk_id = cid, content = ''Install the server.'', source_file = ''docs/guide.md'',
       title = ''Guide'', chunk_section = None, url = None, token_count = 4,
       content_types = tags \<rparr>"

definition hit :: "string \<Rightarrow> real \<Rightarrow> string \<Rightarrow> string list \<Rightarrow> search_result" where
  "hit cid s label tags = \<lparr> chunk = stored_chunk cid tags, score = s, relevance_type = label \<rparr>"

definition canned_response :: "string \<Rightarrow> rag_response" where
  "canned_response q =
     \<lparr> rr_query = q, answer = ''See the guide.'', sources = [], confidence = 0.7,
       response_time = 0, tokens_used = 12 \<rparr>"

text \<open>
  Collaborators for the examples: the vector store and the embeddings carry no data, the
  semantic search returns two hits of equal score, the second chunk of the document
  before the first, and the keyword search returns nothing. The digest is replaced by
  the identity.
\<close>

definition demo_ext :: "(unit, unit) collaborators" where
  "demo_ext =
     \<lparr> encode_query = (\<lambda>q. Inr ()),
       semantic_lookup = (\<lambda>vs v k fs. Inr [hit ''0a1b2c3d_001'' 1 ''semantic'' [''setup''],
                                          hit ''0a1b2c3d_000'' 1 ''semantic'' []]),
       keyword_search = (\<lambda>vs q k. Inr []),
       index_documents = (\<lambda>chunks vs. Inr vs),
       generate_response = (\<lambda>q rs. Inr (canned_response q)),
       md5_hexdigest = (\<lambda>s. s) \<rparr>"

text \<open>The same collaborators with an embedding model that raises.\<close>

definition failing_ext :: "(unit, unit) collaborators" where
  "failing_ext = demo_ext\<lparr> encode_query := (\<lambda>q. Inl (RaisedError ''embedding model unavailable'')),
                          keyword_search := (\<lambda>vs q k. Inr [hit ''0a1b2c3d_000'' 0.9 ''keyword'' []]) \<rparr>"

definition demo_config :: rag_config where
  "demo_config = \<lparr> similarity_threshold = 0.7, cache_ttl_hours = 24 \<rparr>"

definition demo_metrics :: rag_metrics where
  "demo_metrics = \<lparr> queries_processed = 1, cache_hits = 0, avg_response_time = 0,
                    total_tokens_used = 12 \<rparr>"

text \<open>A system whose cache holds one response, stored at clock reading 0.\<close>

definition warm_system :: "unit rag_system" where
  "warm_system =
     \<lparr> vector_store = (),
       cache = [''How do I install it?|auto|5'' \<mapsto>
                  \<lparr> response = canned_response ''How do I install it?'', timestamp = 0 \<rparr>],
       metrics = demo_metrics \<rparr>"

definition clock_at :: "int \<Rightarrow> clock" where
  "clock_at t = \<lparr> now_lookup = t, now_store = t, elapsed = 0 \<rparr>"

text \<open>A hit tagged \<open>setup\<close>, and one tagged \<open>tutorial\<close>, both above the threshold 0.7.\<close>

definition setup_hit :: search_result where
  "setup_hit = hit ''0a1b2c3d_001'' 0.8 ''hybrid'' [''setup'']"

definition tutorial_hit :: search_result where
  "tutorial_hit = hit ''0a1b2c3d_002'' 0.8 ''hybrid'' [''tutorial'']"

text \<open>Two result lists: the chunk \<open>b\<close> is found by both searches.\<close>

definition example_semantic :: "search_result list" where
  "example_semantic = [hit ''a'' 0.9 ''semantic'' [], hit ''b'' 0.5 ''semantic'' []]"

definition example_keyword :: "search_result list" where
  "example_keyword = [hit ''b'' 0.8 ''keyword'' [], hit ''c'' 0.6 ''keyword'' []]"

section \<open>The chunker: overlap, token budget, oversized blocks\<close>

subsection \<open>get_overlap_blocks selects a suffix within the overlap limit\<close>

lemma overlap_loop_shape:
  "\<exists>k. overlap_loop tok co rs ot ob = rev (take k rs) @ ob \<and>
       (ot \<le> co \<longrightarrow> ot + sum_list (map (\<lambda>b. tok (b_content b)) (take k rs)) \<le> co)"
proof (induction rs arbitrary: ot ob)
  case Nil
  show ?case by simp
next
  case (Cons b rs)
  show ?case
  proof (cases "ot + tok (b_content b) \<le> co")
    case True
    from Cons.IH [of "ot + tok (b_content b)" "b # ob"]
    obtain k where k: "overlap_loop tok co rs (ot + tok (b_content b)) (b # ob) = rev (take k rs) @ b # ob"
      "ot + tok (b_content b) \<le> co \<longrightarrow> ot + tok (b_content b) + sum_list (map (\<lambda>b. tok (b_content b)) (take k rs)) \<le> co"
      by blast
    show ?thesis
      by (rule exI [of _ "Suc k"]) (use True k in \<open>simp add: add.assoc\<close>)
  next
    case False
    show ?thesis
      by (rule exI [of _ 0]) (use False in simp)
  qed
qed

lemma get_overlap_blocks_suffix: "suffix (get_overlap_blocks tok co blocks) blocks"
proof -
  obtain k where "overlap_loop tok co (rev blocks) 0 [] = rev (take k (rev blocks)) @ []"
    using overlap_loop_shape [of tok co "rev blocks" 0 "[]"] by blast
  then have "get_overlap_blocks tok co blocks = drop (length blocks - k) blocks \<or> get_overlap_blocks tok co blocks = []"
    by (simp add: get_overlap_blocks_def take_rev)
  then show ?thesis
    by (auto simp: suffix_drop)
qed

lemma get_overlap_blocks_tokens:
  "buffer_tokens tok (get_overlap_blocks tok co blocks) \<le> co"
proof (cases "blocks = []")
  case True
  then show ?thesis by (simp add: get_overlap_blocks_def buffer_tokens_def)
next
  case False
  obtain k where k: "overlap_loop tok co (rev blocks) 0 [] = rev (take k (rev blocks)) @ []"
     "0 + sum_list (map (\<lambda>b. tok (b_content b)) (take k (rev blocks))) \<le> co"
    using overlap_loop_shape [of tok co "rev blocks" 0 "[]"] by auto
  have "sum_list (map (\<lambda>b. tok (b_content b)) (rev (take k (rev blocks)))) \<le> co"
    using k(2) by (simp add: rev_map [symmetric] del: rev_take)
  then show ?thesis
    using False k(1) by (simp add: get_overlap_blocks_def buffer_tokens_def)
qed

lemma get_overlap_blocks_Nil: "get_overlap_blocks tok co [] = []"
  by (simp add: get_overlap_blocks_def)

subsection \<open>One step of the loop\<close>

lemma chunk_loop_split:
  "cs < sz + tok (b_content b) \<Longrightarrow> cur \<noteq> [] \<Longrightarrow>
   chunk_loop emit tok cs co (b # bs) chunks cur sz sec =
   chunk_loop emit tok cs co bs
     (chunks @ [emit (length chunks) cur (if b_type b = ''heading'' then Some (b_content b) else sec)])
     (get_overlap_blocks tok co cur @ [b])
     (buffer_tokens tok (get_overlap_blocks tok co cur @ [b]))
     (if b_type b = ''heading'' then Some (b_content b) else sec)"
  by (simp only: chunk_loop.simps Let_def buffer_tokens_def if_True simp_thms)

lemma chunk_loop_append:
  "\<not> (cs < sz + tok (b_content b) \<and> cur \<noteq> []) \<Longrightarrow>
   chunk_loop emit tok cs co (b # bs) chunks cur sz sec =
   chunk_loop emit tok cs co bs chunks (cur @ [b]) (sz + tok (b_content b))
     (if b_type b = ''heading'' then Some (b_content b) else sec)"
  by (simp only: chunk_loop.simps Let_def if_False)

lemma chunk_loop_Nil:
  "chunk_loop emit tok cs co [] chunks cur sz sec =
     (if cur \<noteq> [] then chunks @ [emit (length chunks) cur sec] else chunks)"
  by simp

text \<open>The chunks are the buffers, combined: the two instances of the loop run in step.\<close>

lemma chunk_loop_map:
  "(\<And>n c s. g (e1 n c s) = e2 n c s) \<Longrightarrow>
   map g (chunk_loop e1 tok cs co bs chunks cur sz sec) =
   chunk_loop e2 tok cs co bs (map g chunks) cur sz sec"
proof (induction bs arbitrary: chunks cur sz sec)
  case Nil
  then show ?case by simp
next
  case (Cons b bs)
  show ?case
  proof (cases "cs < sz + tok (b_content b) \<and> cur \<noteq> []")
    case True
    then have t: "cs < sz + tok (b_content b)" "cur \<noteq> []" by simp_all
    show ?thesis
      unfolding chunk_loop_split [where tok = tok and b = b, OF t]
      by (simp add: Cons.IH [OF Cons.prems] Cons.prems)
  next
    case False
    show ?thesis
      unfolding chunk_loop_append [where tok = tok and b = b, OF False]
      by (rule Cons.IH [OF Cons.prems])
  qed
qed

lemma chunk_contents:
  "map content (create_contextual_chunks tok url_of base cs co blocks fp ttl) =
   map combine_blocks (chunk_buffers tok cs co blocks)"
proof -
  have "map content (create_contextual_chunks tok url_of base cs co blocks fp ttl) =
        chunk_loop (\<lambda>n c s. combine_blocks c) tok cs co blocks [] [] 0 None"
    unfolding create_contextual_chunks_def
    by (subst chunk_loop_map [where ?e2.0 = "\<lambda>n c s. combine_blocks c"]) (simp_all add: create_chunk_def)
  moreover have "map combine_blocks (chunk_buffers tok cs co blocks) =
        chunk_loop (\<lambda>n c s. combine_blocks c) tok cs co blocks [] [] 0 None"
    unfolding chunk_buffers_def
    by (subst chunk_loop_map [where ?e2.0 = "\<lambda>n c s. combine_blocks c"]) simp_all
  ultimately show ?thesis by simp
qed

subsection \<open>Consecutive buffers\<close>

lemma successively_snoc:
  "successively P (xs @ [x]) \<longleftrightarrow> successively P xs \<and> (xs = [] \<or> P (last xs) x)"
  by (simp add: successively_append_iff)

lemma successively_nth:
  "successively P xs \<Longrightarrow> Suc k < length xs \<Longrightarrow> P (xs ! k) (xs ! Suc k)"
proof (induction P xs arbitrary: k rule: successively.induct)
  case (3 P x y xs)
  then show ?case by (cases k) auto
qed auto

lemma seeded_by_overlap: "seeded_by tok co cur (get_overlap_blocks tok co cur @ [b])"
  unfolding seeded_by_def by (rule exI [of _ "[b]"]) simp

lemma seeded_by_append: "seeded_by tok co p n \<Longrightarrow> seeded_by tok co p (n @ [b])"
  unfolding seeded_by_def
proof -
  assume "\<exists>rest. rest \<noteq> [] \<and> n = get_overlap_blocks tok co p @ rest"
  then obtain rest where "rest \<noteq> []" "n = get_overlap_blocks tok co p @ rest" by blast
  then have "rest @ [b] \<noteq> [] \<and> n @ [b] = get_overlap_blocks tok co p @ (rest @ [b])" by simp
  then show "\<exists>rest. rest \<noteq> [] \<and> n @ [b] = get_overlap_blocks tok co p @ rest" by blast
qed

lemma chunk_loop_successively:
  "successively (seeded_by tok co) (chunks @ [cur]) \<Longrightarrow>
   successively (seeded_by tok co) (chunk_loop (\<lambda>n c s. c) tok cs co bs chunks cur sz sec)"
proof (induction bs arbitrary: chunks cur sz sec)
  case Nil
  then show ?case by (simp add: successively_snoc)
next
  case (Cons b bs)
  show ?case
  proof (cases "cs < sz + tok (b_content b) \<and> cur \<noteq> []")
    case True
    have h: "successively (seeded_by tok co) ((chunks @ [cur]) @ [get_overlap_blocks tok co cur @ [b]])"
      using Cons.prems seeded_by_overlap [of tok co cur b]
      by (simp only: successively_snoc [of _ "chunks @ [cur]"] last_snoc simp_thms)
    from True have t: "cs < sz + tok (b_content b)" "cur \<noteq> []" by simp_all
    show ?thesis
      unfolding chunk_loop_split [where tok = tok and b = b, OF t] by (rule Cons.IH [OF h])
  next
    case False
    have "successively (seeded_by tok co) (chunks @ [cur @ [b]])"
      using Cons.prems seeded_by_append [of tok co "last chunks" cur b]
      by (auto simp only: successively_snoc)
    then show ?thesis
      unfolding chunk_loop_append [where tok = tok and b = b, OF False] by (rule Cons.IH)
  qed
qed

lemma chunk_buffers_successively:
  "successively (seeded_by tok co) (chunk_buffers tok cs co blocks)"
  unfolding chunk_buffers_def by (rule chunk_loop_successively) simp

text \<open>Evaluating the chunker on the example documents.\<close>

lemma example_buffers:
  "chunk_buffers char_tokens 10 5 example_blocks =
     [[text_block ''aaaaa''], [text_block ''aaaaa'', text_block ''bbbbbbbb''], [text_block ''c'']]"
  by (simp add: chunk_buffers_def example_blocks_def text_block_def char_tokens_def Let_def
      get_overlap_blocks_def)

lemma oversized_buffers:
  "chunk_buffers char_tokens 10 5 oversized_blocks =
     [[text_block ''aaaaa''], [text_block ''aaaaa'', text_block ''bbbbbbbbbbb'']]"
  by (simp add: chunk_buffers_def oversized_blocks_def text_block_def char_tokens_def Let_def
      get_overlap_blocks_def)

lemma py_strip_plain:
  "s \<noteq> [] \<Longrightarrow> \<not> py_isspace (hd s) \<Longrightarrow> \<not> py_isspace (last s) \<Longrightarrow> py_strip s = s"
proof -
  assume a: "s \<noteq> []" "\<not> py_isspace (hd s)" "\<not> py_isspace (last s)"
  have 1: "dropWhile py_isspace s = s"
    using a(2) by (simp add: dropWhile_eq_self_iff)
  have 2: "dropWhile py_isspace (rev s) = rev s"
    using a(3) by (simp only: dropWhile_eq_self_iff hd_rev simp_thms)
  show ?thesis
    by (simp only: py_strip_def 1 2 rev_rev_ident)
qed

lemma example_combined:
  "combine_blocks [text_block ''aaaaa''] = ''aaaaa''"
  "combine_blocks [text_block ''aaaaa'', text_block ''bbbbbbbb''] = ''aaaaa\<newline>bbbbbbbb''"
  "combine_blocks [text_block ''c''] = ''c''"
  "combine_blocks [text_block ''bbbbbbbbbbb''] = ''bbbbbbbbbbb''"
  "combine_blocks [text_block ''aaaaa'', text_block ''bbbbbbbbbbb''] = ''aaaaa\<newline>bbbbbbbbbbb''"
  by (simp_all add: combine_blocks_def block_piece_def text_block_def py_strip_plain py_isspace_def)

subsection \<open>Overlap correctness\<close>

text \<open>
  Claim C3. For two consecutive chunks \<open>k\<close> and \<open>k + 1\<close> of a document, the buffer of chunk
  \<open>k + 1\<close> starts with the overlap blocks \<open>get_overlap_blocks\<close> selects from the buffer of
  chunk \<open>k\<close>, followed by at least one new block; these overlap blocks are a suffix of the
  block sequence of chunk \<open>k\<close> (whole blocks, compared as values), and their token counts
  add up to at most \<open>chunk_overlap\<close>. The contents of the two chunks are their buffers,
  combined.
\<close>

theorem overlap_blocks_bounded_suffix:
  assumes "Suc k < length (chunk_buffers tok cs co blocks)"
  shows "(\<exists>rest. rest \<noteq> [] \<and>
            chunk_buffers tok cs co blocks ! Suc k =
              get_overlap_blocks tok co (chunk_buffers tok cs co blocks ! k) @ rest) \<and>
         suffix (get_overlap_blocks tok co (chunk_buffers tok cs co blocks ! k))
           (chunk_buffers tok cs co blocks ! k) \<and>
         buffer_tokens tok (get_overlap_blocks tok co (chunk_buffers tok cs co blocks ! k)) \<le> co \<and>
         map content (create_contextual_chunks tok url_of base cs co blocks fp ttl) =
           map combine_blocks (chunk_buffers tok cs co blocks)"
proof -
  have "seeded_by tok co (chunk_buffers tok cs co blocks ! k) (chunk_buffers tok cs co blocks ! Suc k)"
    using chunk_buffers_successively assms by (rule successively_nth)
  then have "\<exists>rest. rest \<noteq> [] \<and>
      chunk_buffers tok cs co blocks ! Suc k =
        get_overlap_blocks tok co (chunk_buffers tok cs co blocks ! k) @ rest"
    by (simp only: seeded_by_def)
  then show ?thesis
    using get_overlap_blocks_suffix get_overlap_blocks_tokens chunk_contents by blast
qed

theorem overlap_blocks_bounded_suffix_witness:
  "Suc 0 < length (chunk_buffers char_tokens 10 5 example_blocks) \<and>
   chunk_buffers char_tokens 10 5 example_blocks ! Suc 0 =
     get_overlap_blocks char_tokens 5 (chunk_buffers char_tokens 10 5 example_blocks ! 0) @
       [text_block ''bbbbbbbb''] \<and>
   get_overlap_blocks char_tokens 5 (chunk_buffers char_tokens 10 5 example_blocks ! 0) =
     [text_block ''aaaaa''] \<and>
   suffix [text_block ''aaaaa''] (chunk_buffers char_tokens 10 5 example_blocks ! 0) \<and>
   buffer_tokens char_tokens [text_block ''aaaaa''] \<le> 5"
proof -
  have h: "Suc 0 < length (chunk_buffers char_tokens 10 5 example_blocks)"
    by (simp add: example_buffers)
  have ov: "get_overlap_blocks char_tokens 5 (chunk_buffers char_tokens 10 5 example_blocks ! 0) =
      [text_block ''aaaaa'']"
    by (simp add: example_buffers get_overlap_blocks_def text_block_def char_tokens_def)
  show ?thesis
    using overlap_blocks_bounded_suffix [OF h, of "\<lambda>s. []" "[]" "[]" "[]"] h ov
    by (simp add: example_buffers)
qed

subsection \<open>The token budget of a chunk\<close>

lemma buffer_tokens_snoc: "buffer_tokens tok (bs @ [b]) = buffer_tokens tok bs + tok (b_content b)"
  by (simp add: buffer_tokens_def)

lemma within_budget_seed:
  "buffer_tokens tok ov \<le> co \<Longrightarrow> within_budget tok cs co (ov @ [b])"
  unfolding within_budget_def by blast

lemma within_budget_Nil: "within_budget tok cs co []"
  by (simp add: within_budget_def buffer_tokens_def)

lemma chunk_loop_budget:
  "sz = buffer_tokens tok cur \<Longrightarrow> list_all (within_budget tok cs co) chunks \<Longrightarrow>
   within_budget tok cs co cur \<Longrightarrow>
   list_all (within_budget tok cs co) (chunk_loop (\<lambda>n c s. c) tok cs co bs chunks cur sz sec)"
proof (induction bs arbitrary: chunks cur sz sec)
  case Nil
  then show ?case by simp
next
  case (Cons b bs)
  show ?case
  proof (cases "cs < sz + tok (b_content b) \<and> cur \<noteq> []")
    case True
    then have t: "cs < sz + tok (b_content b)" "cur \<noteq> []" by simp_all
    have 1: "list_all (within_budget tok cs co) (chunks @ [cur])"
      using Cons.prems by simp
    have 2: "within_budget tok cs co (get_overlap_blocks tok co cur @ [b])"
      by (rule within_budget_seed) (rule get_overlap_blocks_tokens)
    show ?thesis
      unfolding chunk_loop_split [where tok = tok and b = b, OF t]
      by (rule Cons.IH [OF refl 1 2])
  next
    case False
    have 1: "sz + tok (b_content b) = buffer_tokens tok (cur @ [b])"
      using Cons.prems(1) by (simp add: buffer_tokens_snoc)
    have 2: "within_budget tok cs co (cur @ [b])"
    proof (cases "cur = []")
      case True
      have "within_budget tok cs co ([] @ [b])"
        by (rule within_budget_seed) (simp add: buffer_tokens_def)
      then show ?thesis using True by simp
    next
      case False
      with \<open>\<not> (cs < sz + tok (b_content b) \<and> cur \<noteq> [])\<close> have "sz + tok (b_content b) \<le> cs"
        by simp
      then show ?thesis
        unfolding within_budget_def 1 by (rule disjI1)
    qed
    show ?thesis
      unfolding chunk_loop_append [where tok = tok and b = b, OF False]
      by (rule Cons.IH [OF 1 Cons.prems(2) 2])
  qed
qed

text \<open>
  Claim C1, as amended. The size check of the chunker adds up the token counts of the
  blocks, one by one; it never tokenizes the combined content, to which \<open>combine_blocks\<close>
  adds the joining newlines and the heading, fence and list markers. For every chunk
  emitted, the token counts of the blocks of its buffer add up to at most \<open>chunk_size\<close>,
  unless the buffer is a seed to which nothing was appended: overlap blocks of at most
  \<open>chunk_overlap\<close> tokens (or none) followed by one block. The content of each chunk is its
  buffer, combined.
\<close>

theorem chunk_block_budget:
  "(\<forall>buf \<in> set (chunk_buffers tok cs co blocks). within_budget tok cs co buf) \<and>
   map content (create_contextual_chunks tok url_of base cs co blocks fp ttl) =
     map combine_blocks (chunk_buffers tok cs co blocks)"
proof -
  have "list_all (within_budget tok cs co) (chunk_buffers tok cs co blocks)"
    unfolding chunk_buffers_def
    by (rule chunk_loop_budget) (simp_all add: buffer_tokens_def within_budget_Nil)
  then show ?thesis
    using chunk_contents by (simp add: list_all_iff)
qed

theorem chunk_block_budget_witness:
  "[text_block ''aaaaa'', text_block ''bbbbbbbb''] \<in> set (chunk_buffers char_tokens 10 5 example_blocks) \<and>
   within_budget char_tokens 10 5 [text_block ''aaaaa'', text_block ''bbbbbbbb''] \<and>
   buffer_tokens char_tokens [text_block ''aaaaa'', text_block ''bbbbbbbb''] = 13 \<and>
   buffer_tokens char_tokens [text_block ''aaaaa''] = 5"
proof -
  have h: "[text_block ''aaaaa'', text_block ''bbbbbbbb''] \<in> set (chunk_buffers char_tokens 10 5 example_blocks)"
    by (simp add: example_buffers)
  have "within_budget char_tokens 10 5 [text_block ''aaaaa'', text_block ''bbbbbbbb'']"
    using chunk_block_budget [of char_tokens 10 5 example_blocks "\<lambda>s. []" "[]" "[]" "[]"] h
    by blast
  then show ?thesis
    using h by (simp add: buffer_tokens_def text_block_def char_tokens_def)
qed

text \<open>
  The claim as stated fails on \<open>example_blocks\<close> with a limit of 10 tokens and an overlap
  of 5: the second chunk is closed when the third block arrives, holds two blocks of 5
  and 8 tokens, neither oversized, and its content has 14 tokens.
\<close>

theorem chunk_token_bound_counterexample:
  "map content (create_contextual_chunks char_tokens (\<lambda>s. []) ''0a1b2c3d'' 10 5 example_blocks
      ''guide.md'' ''Guide'') = [''aaaaa'', ''aaaaa\<newline>bbbbbbbb'', ''c''] \<and>
   chunk_buffers char_tokens 10 5 example_blocks ! 1 = [text_block ''aaaaa'', text_block ''bbbbbbbb''] \<and>
   char_tokens (b_content (text_block ''aaaaa'')) = 5 \<and>
   char_tokens (b_content (text_block ''bbbbbbbb'')) = 8 \<and>
   char_tokens (content (create_contextual_chunks char_tokens (\<lambda>s. []) ''0a1b2c3d'' 10 5
      example_blocks ''guide.md'' ''Guide'' ! 1)) = 14 \<and>
   \<not> char_tokens (content (create_contextual_chunks char_tokens (\<lambda>s. []) ''0a1b2c3d'' 10 5
      example_blocks ''guide.md'' ''Guide'' ! 1)) \<le> 10"
proof -
  let ?chunks = "create_contextual_chunks char_tokens (\<lambda>s. []) ''0a1b2c3d'' 10 5 example_blocks
      ''guide.md'' ''Guide''"
  have m: "map content ?chunks = [''aaaaa'', ''aaaaa\<newline>bbbbbbbb'', ''c'']"
    by (simp add: chunk_contents example_buffers example_combined)
  then have "length (map content ?chunks) = 3" by simp
  then have "content (?chunks ! 1) = map content ?chunks ! 1" by simp
  then have c: "content (?chunks ! 1) = ''aaaaa\<newline>bbbbbbbb''" by (simp add: m)
  show ?thesis
    by (simp add: m c [unfolded One_nat_def] example_buffers text_block_def char_tokens_def)
qed

subsection \<open>Oversized blocks\<close>

lemma chunk_loop_prefix:
  "\<exists>more. chunk_loop (\<lambda>n c s. c) tok cs co bs chunks cur sz sec = chunks @ more"
proof (induction bs arbitrary: chunks cur sz sec)
  case Nil
  show ?case by simp
next
  case (Cons b bs)
  show ?case
  proof (cases "cs < sz + tok (b_content b) \<and> cur \<noteq> []")
    case True
    then have t: "cs < sz + tok (b_content b)" "cur \<noteq> []" by simp_all
    obtain more where "chunk_loop (\<lambda>n c s. c) tok cs co bs (chunks @ [cur])
        (get_overlap_blocks tok co cur @ [b]) (buffer_tokens tok (get_overlap_blocks tok co cur @ [b]))
        (if b_type b = ''heading'' then Some (b_content b) else sec) = (chunks @ [cur]) @ more"
      using Cons.IH by blast
    then have "chunk_loop (\<lambda>n c s. c) tok cs co (b # bs) chunks cur sz sec = chunks @ (cur # more)"
      unfolding chunk_loop_split [where tok = tok and b = b, OF t] by simp
    then show ?thesis by blast
  next
    case False
    show ?thesis
      unfolding chunk_loop_append [where tok = tok and b = b, OF False] by (rule Cons.IH)
  qed
qed

lemma chunk_loop_closes_next:
  assumes "cs < sz" "cur \<noteq> []"
  shows "\<exists>more. chunk_loop (\<lambda>n c s. c) tok cs co post chunks cur sz sec = chunks @ [cur] @ more"
proof (cases post)
  case Nil
  then show ?thesis using assms by simp
next
  case (Cons c post')
  have t: "cs < sz + tok (b_content c)" using assms(1) by simp
  obtain more where "chunk_loop (\<lambda>n c s. c) tok cs co post' (chunks @ [cur])
        (get_overlap_blocks tok co cur @ [c]) (buffer_tokens tok (get_overlap_blocks tok co cur @ [c]))
        (if b_type c = ''heading'' then Some (b_content c) else sec) = (chunks @ [cur]) @ more"
    using chunk_loop_prefix by blast
  then have "chunk_loop (\<lambda>n c s. c) tok cs co post chunks cur sz sec = chunks @ [cur] @ more"
    unfolding Cons chunk_loop_split [where tok = tok and b = c, OF t assms(2)] by simp
  then show ?thesis by blast
qed

lemma oversized_first:
  assumes "cs < tok (b_content b)"
  shows "\<exists>more. chunk_loop (\<lambda>n c s. c) tok cs co (b # post) chunks [] sz sec = chunks @ [[b]] @ more"
proof -
  have f: "\<not> (cs < sz + tok (b_content b) \<and> ([]::content_block list) \<noteq> [])" by simp
  have "cs < sz + tok (b_content b)" using assms by simp
  then show ?thesis
    unfolding chunk_loop_append [where tok = tok and b = b, OF f]
    using chunk_loop_closes_next [of cs "sz + tok (b_content b)" "[b]"] by simp
qed

lemma oversized_later:
  assumes "cs < tok (b_content b)" "cur \<noteq> []"
  shows "\<exists>more. chunk_loop (\<lambda>n c s. c) tok cs co (b # post) chunks cur sz sec =
           chunks @ [cur, get_overlap_blocks tok co cur @ [b]] @ more"
proof -
  have t: "cs < sz + tok (b_content b)" using assms(1) by simp
  have "cs < buffer_tokens tok (get_overlap_blocks tok co cur @ [b])"
    using assms(1) by (simp add: buffer_tokens_snoc)
  then obtain more where "chunk_loop (\<lambda>n c s. c) tok cs co post (chunks @ [cur])
        (get_overlap_blocks tok co cur @ [b]) (buffer_tokens tok (get_overlap_blocks tok co cur @ [b]))
        (if b_type b = ''heading'' then Some (b_content b) else sec) =
        (chunks @ [cur]) @ [get_overlap_blocks tok co cur @ [b]] @ more"
    using chunk_loop_closes_next [of cs _ "get_overlap_blocks tok co cur @ [b]"] by blast
  then have "chunk_loop (\<lambda>n c s. c) tok cs co (b # post) chunks cur sz sec =
           chunks @ [cur, get_overlap_blocks tok co cur @ [b]] @ more"
    unfolding chunk_loop_split [where tok = tok and b = b, OF t assms(2)] by simp
  then show ?thesis by blast
qed

lemma oversized_after:
  assumes "cs < tok (b_content b)"
  shows "cur \<noteq> [] \<or> pre \<noteq> [] \<Longrightarrow>
    \<exists>k. length chunks \<le> k \<and>
        Suc k < length (chunk_loop (\<lambda>n c s. c) tok cs co (pre @ b # post) chunks cur sz sec) \<and>
        chunk_loop (\<lambda>n c s. c) tok cs co (pre @ b # post) chunks cur sz sec ! Suc k =
          get_overlap_blocks tok co
            (chunk_loop (\<lambda>n c s. c) tok cs co (pre @ b # post) chunks cur sz sec ! k) @ [b]"
proof (induction pre arbitrary: chunks cur sz sec)
  case Nil
  then have c: "cur \<noteq> []" by simp
  obtain more where m: "chunk_loop (\<lambda>n c s. c) tok cs co (b # post) chunks cur sz sec =
           chunks @ [cur, get_overlap_blocks tok co cur @ [b]] @ more"
    using oversized_later [where tok = tok and b = b, OF assms c] by blast
  show ?case
    by (rule exI [of _ "length chunks"]) (simp add: m nth_append del: chunk_loop.simps)
next
  case (Cons p pre)
  show ?case
  proof (cases "cs < sz + tok (b_content p) \<and> cur \<noteq> []")
    case True
    then have t: "cs < sz + tok (b_content p)" "cur \<noteq> []" by simp_all
    let ?R = "chunk_loop (\<lambda>n c s. c) tok cs co (pre @ b # post) (chunks @ [cur])
        (get_overlap_blocks tok co cur @ [p]) (buffer_tokens tok (get_overlap_blocks tok co cur @ [p]))
        (if b_type p = ''heading'' then Some (b_content p) else sec)"
    have "get_overlap_blocks tok co cur @ [p] \<noteq> [] \<or> pre \<noteq> []" by simp
    from Cons.IH [OF this, of "chunks @ [cur]"]
    obtain k where k: "length (chunks @ [cur]) \<le> k" "Suc k < length ?R"
        "?R ! Suc k = get_overlap_blocks tok co (?R ! k) @ [b]"
      by blast
    have eq: "chunk_loop (\<lambda>n c s. c) tok cs co ((p # pre) @ b # post) chunks cur sz sec = ?R"
      unfolding append_Cons chunk_loop_split [where tok = tok and b = p, OF t] by (rule refl)
    from k(1) have "length chunks \<le> k" by simp
    then show ?thesis
      unfolding eq using k(2,3) by blast
  next
    case False
    let ?R = "chunk_loop (\<lambda>n c s. c) tok cs co (pre @ b # post) chunks (cur @ [p])
        (sz + tok (b_content p)) (if b_type p = ''heading'' then Some (b_content p) else sec)"
    have "cur @ [p] \<noteq> [] \<or> pre \<noteq> []" by simp
    from Cons.IH [OF this, of chunks]
    obtain k where k: "length chunks \<le> k" "Suc k < length ?R"
        "?R ! Suc k = get_overlap_blocks tok co (?R ! k) @ [b]"
      by blast
    have eq: "chunk_loop (\<lambda>n c s. c) tok cs co ((p # pre) @ b # post) chunks cur sz sec = ?R"
      unfolding append_Cons chunk_loop_append [where tok = tok and b = p, OF False] by (rule refl)
    show ?thesis
      unfolding eq using k by blast
  qed
qed

text \<open>
  Claim C2, as amended. A block whose token count alone exceeds \<open>chunk_size\<close> is never cut
  and never followed by another block in its chunk. When it is the first block of the
  document, the first chunk holds that block alone. When blocks precede it, it closes
  the buffer in progress and is emitted as the last block of the next chunk, after the
  overlap blocks selected from the chunk just closed (whole blocks of at most
  \<open>chunk_overlap\<close> tokens, possibly none).
\<close>

theorem oversized_block_chunk:
  assumes "cs < tok (b_content b)"
  shows "(pre = [] \<longrightarrow> (\<exists>more. chunk_buffers tok cs co (pre @ b # post) = [b] # more)) \<and>
         (pre \<noteq> [] \<longrightarrow>
            (\<exists>k. Suc k < length (chunk_buffers tok cs co (pre @ b # post)) \<and>
                 chunk_buffers tok cs co (pre @ b # post) ! Suc k =
                   get_overlap_blocks tok co (chunk_buffers tok cs co (pre @ b # post) ! k) @ [b] \<and>
                 buffer_tokens tok
                   (get_overlap_blocks tok co (chunk_buffers tok cs co (pre @ b # post) ! k)) \<le> co)) \<and>
         map content (create_contextual_chunks tok url_of base cs co (pre @ b # post) fp ttl) =
           map combine_blocks (chunk_buffers tok cs co (pre @ b # post))"
proof -
  have 1: "\<exists>more. chunk_buffers tok cs co (pre @ b # post) = [b] # more" if "pre = []"
    using oversized_first [where tok = tok and b = b and co = co and post = post and chunks = "[]"
        and sz = 0 and sec = None, OF assms] that
    by (simp add: chunk_buffers_def)
  have 2: "\<exists>k. Suc k < length (chunk_buffers tok cs co (pre @ b # post)) \<and>
                 chunk_buffers tok cs co (pre @ b # post) ! Suc k =
                   get_overlap_blocks tok co (chunk_buffers tok cs co (pre @ b # post) ! k) @ [b] \<and>
                 buffer_tokens tok
                   (get_overlap_blocks tok co (chunk_buffers tok cs co (pre @ b # post) ! k)) \<le> co"
    if "pre \<noteq> []"
  proof -
    have "[] \<noteq> ([]::content_block list) \<or> pre \<noteq> []" using that by simp
    from oversized_after [where tok = tok and b = b and co = co and post = post and chunks = "[]"
        and sz = 0 and sec = None, OF assms this]
    show ?thesis
      unfolding chunk_buffers_def using get_overlap_blocks_tokens by blast
  qed
  show ?thesis using 1 2 chunk_contents by blast
qed

theorem oversized_block_chunk_witness:
  "10 < char_tokens (b_content (text_block ''bbbbbbbbbbb'')) \<and>
   chunk_buffers char_tokens 10 5 ([text_block ''aaaaa''] @ text_block ''bbbbbbbbbbb'' # []) ! Suc 0 =
     get_overlap_blocks char_tokens 5
       (chunk_buffers char_tokens 10 5 ([text_block ''aaaaa''] @ text_block ''bbbbbbbbbbb'' # []) ! 0) @
     [text_block ''bbbbbbbbbbb''] \<and>
   hd (chunk_buffers char_tokens 10 5 ([] @ text_block ''bbbbbbbbbbb'' # [text_block ''c''])) =
     [text_block ''bbbbbbbbbbb'']"
proof -
  have h: "10 < char_tokens (b_content (text_block ''bbbbbbbbbbb''))"
    by (simp add: text_block_def char_tokens_def)
  have e: "chunk_buffers char_tokens 10 5 [text_block ''aaaaa'', text_block ''bbbbbbbbbbb''] =
      [[text_block ''aaaaa''], [text_block ''aaaaa'', text_block ''bbbbbbbbbbb'']]"
    using oversized_buffers by (simp only: oversized_blocks_def)
  have ov: "get_overlap_blocks char_tokens 5 [text_block ''aaaaa''] = [text_block ''aaaaa'']"
    by (simp add: get_overlap_blocks_def text_block_def char_tokens_def)
  have "\<exists>more. chunk_buffers char_tokens 10 5 ([] @ text_block ''bbbbbbbbbbb'' # [text_block ''c'']) =
      [text_block ''bbbbbbbbbbb''] # more"
    using oversized_block_chunk [where tok = char_tokens and b = "text_block ''bbbbbbbbbbb''"
        and pre = "[]" and co = 5 and post = "[text_block ''c'']" and url_of = "\<lambda>s. []"
        and base = "[]" and fp = "[]" and ttl = "[]", OF h]
    by blast
  then have "hd (chunk_buffers char_tokens 10 5 ([] @ text_block ''bbbbbbbbbbb'' # [text_block ''c''])) =
     [text_block ''bbbbbbbbbbb'']"
    by auto
  then show ?thesis
    using h by (simp add: e ov)
qed

text \<open>
  The claim as stated fails on \<open>oversized_blocks\<close> with a limit of 10 tokens and an
  overlap of 5: the second block has 11 tokens, and the chunk that holds it starts with
  the first block, repeated as overlap. No chunk has the oversized block alone as its
  content.
\<close>

theorem oversized_block_alone_counterexample:
  "10 < char_tokens (b_content (text_block ''bbbbbbbbbbb'')) \<and>
   map content (create_contextual_chunks char_tokens (\<lambda>s. []) ''0a1b2c3d'' 10 5 oversized_blocks
      ''guide.md'' ''Guide'') = [''aaaaa'', ''aaaaa\<newline>bbbbbbbbbbb''] \<and>
   combine_blocks [text_block ''bbbbbbbbbbb''] = ''bbbbbbbbbbb'' \<and>
   combine_blocks [text_block ''bbbbbbbbbbb''] \<notin>
     set (map content (create_contextual_chunks char_tokens (\<lambda>s. []) ''0a1b2c3d'' 10 5
       oversized_blocks ''guide.md'' ''Guide''))"
proof -
  have "10 < char_tokens (b_content (text_block ''bbbbbbbbbbb''))"
    by (simp add: text_block_def char_tokens_def)
  then show ?thesis
    by (simp add: chunk_contents oversized_buffers example_combined)
qed

section \<open>Hybrid fusion and ranking\<close>

subsection \<open>Dictionaries and the stable descending sort\<close>

lemma map_of_dict_set: "map_of (dict_set k v d) = (map_of d)(k \<mapsto> v)"
  by (induction d) (auto simp: fun_eq_iff)

lemma keys_dict_set:
  "map fst (dict_set k v d) = (if k \<in> set (map fst d) then map fst d else map fst d @ [k])"
proof (induction d)
  case Nil
  show ?case by simp
next
  case (Cons p d)
  obtain k' v' where p: "p = (k', v')" by (cases p)
  show ?case
  proof (cases "k' = k")
    case True
    then show ?thesis by (simp add: p)
  next
    case False
    then show ?thesis using Cons.IH by (simp add: p)
  qed
qed

lemma dict_set_new: "k \<notin> set (map fst d) \<Longrightarrow> dict_set k v d = d @ [(k, v)]"
  by (induction d) auto

lemma insort_key_map:
  "map g (insort_key (\<lambda>x. f (g x)) a xs) = insort_key f (g a) (map g xs)"
  by (induction xs) simp_all

lemma sort_key_map: "map g (sort_key (\<lambda>x. f (g x)) xs) = sort_key f (map g xs)"
  by (induction xs) (simp_all add: insort_key_map)

lemma py_sorted_reverse_sorted:
  "sorted_wrt (\<lambda>a b. f a \<ge> f b) (py_sorted_reverse f xs)"
proof -
  have "sorted (map (\<lambda>x. - f x) (sort_key (\<lambda>x. - f x) xs))"
    by (rule sorted_sort_key)
  then show ?thesis
    by (simp add: py_sorted_reverse_def sorted_map)
qed

lemma py_sorted_reverse_stable:
  "filter (\<lambda>x. f x = s) (py_sorted_reverse f xs) = filter (\<lambda>x. f x = s) xs"
proof -
  have "filter (\<lambda>x. - f x = - s) (sort_key (\<lambda>x. - f x) xs) = filter (\<lambda>x. - f x = - s) xs"
    by (rule sort_key_stable)
  then show ?thesis
    by (simp add: py_sorted_reverse_def)
qed

lemma set_py_sorted_reverse: "set (py_sorted_reverse f xs) = set xs"
  by (simp add: py_sorted_reverse_def)

lemma distinct_map_py_sorted_reverse:
  "distinct (map g (py_sorted_reverse f xs)) = distinct (map g xs)"
  by (simp add: py_sorted_reverse_def distinct_map)

lemma find_distinct:
  "distinct (map f xs) \<Longrightarrow> x \<in> set xs \<Longrightarrow> find (\<lambda>y. f y = f x) xs = Some x"
  by (induction xs) (auto simp: image_iff)

lemma find_absent: "i \<notin> set (map f xs) \<Longrightarrow> find (\<lambda>y. f y = i) xs = None"
  by (auto simp: find_None_iff)

lemma find_present: "i \<in> set (map f xs) \<Longrightarrow> \<exists>x. find (\<lambda>y. f y = i) xs = Some x \<and> x \<in> set xs \<and> f x = i"
  by (induction xs) auto

subsection \<open>The two loops of combine_search_results\<close>

lemma add_semantic_results_distinct:
  "distinct (map fst cs @ result_ids rs) \<Longrightarrow> map fst ar = map fst cs \<Longrightarrow>
   add_semantic_results sw rs (cs, ar) =
     (cs @ map (\<lambda>r. (chunk_id (chunk r), sw * score r)) rs,
      ar @ map (\<lambda>r. (chunk_id (chunk r), r)) rs)"
proof (induction rs arbitrary: cs ar)
  case Nil
  show ?case by simp
next
  case (Cons r rs)
  have new: "chunk_id (chunk r) \<notin> set (map fst cs)" "chunk_id (chunk r) \<notin> set (map fst ar)"
    using Cons.prems by (auto simp: result_ids_def)
  have step: "add_semantic_results sw (r # rs) (cs, ar) =
      add_semantic_results sw rs
        (cs @ [(chunk_id (chunk r), sw * score r)], ar @ [(chunk_id (chunk r), r)])"
    by (simp add: Let_def dict_set_new [OF new(1)] dict_set_new [OF new(2)])
  have d: "distinct (map fst (cs @ [(chunk_id (chunk r), sw * score r)]) @ result_ids rs)"
    using Cons.prems(1) by (auto simp: result_ids_def)
  have k: "map fst (ar @ [(chunk_id (chunk r), r)]) = map fst (cs @ [(chunk_id (chunk r), sw * score r)])"
    using Cons.prems(2) by simp
  show ?case
    unfolding step Cons.IH [OF d k] by simp
qed

lemma keyword_step:
  assumes "map fst ar = map fst cs"
  shows "\<exists>cs1 ar1.
     add_keyword_results kwt (r # rest) (cs, ar) = add_keyword_results kwt rest (cs1, ar1) \<and>
     map fst ar1 = map fst cs1 \<and>
     map fst cs1 = (if chunk_id (chunk r) \<in> set (map fst cs) then map fst cs
                    else map fst cs @ [chunk_id (chunk r)]) \<and>
     map_of cs1 = (map_of cs)(chunk_id (chunk r) \<mapsto>
        (case map_of cs (chunk_id (chunk r)) of None \<Rightarrow> 0 | Some s \<Rightarrow> s) + kwt * score r) \<and>
     map_of ar1 = (map_of ar)(chunk_id (chunk r) \<mapsto>
        (case map_of ar (chunk_id (chunk r)) of
           None \<Rightarrow> r\<lparr>relevance_type := ''keyword''\<rparr>
         | Some stored \<Rightarrow> stored\<lparr>relevance_type := ''hybrid''\<rparr>))"
proof (cases "map_of cs (chunk_id (chunk r))")
  case None
  then have a: "map_of ar (chunk_id (chunk r)) = None"
    by (metis assms map_of_eq_None_iff set_map)
  show ?thesis
    apply (rule exI [of _ "dict_set (chunk_id (chunk r)) (kwt * score r) cs"])
    apply (rule exI [of _ "dict_set (chunk_id (chunk r)) (r\<lparr>relevance_type := ''keyword''\<rparr>) ar"])
    using None a assms by (simp add: Let_def keys_dict_set map_of_dict_set)
next
  case (Some s)
  then have "map_of ar (chunk_id (chunk r)) \<noteq> None"
    by (metis assms map_of_eq_None_iff option.distinct(1) set_map)
  then obtain stored where a: "map_of ar (chunk_id (chunk r)) = Some stored" by blast
  show ?thesis
    apply (rule exI [of _ "dict_set (chunk_id (chunk r)) (s + kwt * score r) cs"])
    apply (rule exI [of _ "dict_set (chunk_id (chunk r)) (stored\<lparr>relevance_type := ''hybrid''\<rparr>) ar"])
    using Some a assms by (simp add: Let_def keys_dict_set map_of_dict_set)
qed

lemma add_keyword_results_spec:
  assumes "distinct (result_ids kw)" "map fst ar = map fst cs"
  shows "\<exists>cs' ar'.
     add_keyword_results kwt kw (cs, ar) = Inr (cs', ar') \<and>
     map fst cs' = map fst cs @ filter (\<lambda>i. i \<notin> set (map fst cs)) (result_ids kw) \<and>
     map fst ar' = map fst cs' \<and>
     (\<forall>i. map_of cs' i =
        (case find (\<lambda>r. chunk_id (chunk r) = i) kw of
           None \<Rightarrow> map_of cs i
         | Some r \<Rightarrow> Some ((case map_of cs i of None \<Rightarrow> 0 | Some s \<Rightarrow> s) + kwt * score r))) \<and>
     (\<forall>i. map_of ar' i =
        (case find (\<lambda>r. chunk_id (chunk r) = i) kw of
           None \<Rightarrow> map_of ar i
         | Some r \<Rightarrow> Some (case map_of ar i of
                             None \<Rightarrow> r\<lparr>relevance_type := ''keyword''\<rparr>
                           | Some stored \<Rightarrow> stored\<lparr>relevance_type := ''hybrid''\<rparr>)))"
  using assms
proof (induction kw arbitrary: cs ar)
  case Nil
  then show ?case by (simp add: result_ids_def)
next
  case (Cons r rest)
  let ?k = "chunk_id (chunk r)"
  obtain cs1 ar1 where
    step: "add_keyword_results kwt (r # rest) (cs, ar) = add_keyword_results kwt rest (cs1, ar1)"
    and keys1: "map fst ar1 = map fst cs1"
    and cs1_keys: "map fst cs1 = (if ?k \<in> set (map fst cs) then map fst cs else map fst cs @ [?k])"
    and cs1_map: "map_of cs1 = (map_of cs)(?k \<mapsto>
        (case map_of cs ?k of None \<Rightarrow> 0 | Some s \<Rightarrow> s) + kwt * score r)"
    and ar1_map: "map_of ar1 = (map_of ar)(?k \<mapsto>
        (case map_of ar ?k of
           None \<Rightarrow> r\<lparr>relevance_type := ''keyword''\<rparr>
         | Some stored \<Rightarrow> stored\<lparr>relevance_type := ''hybrid''\<rparr>))"
    using keyword_step [OF Cons.prems(2), of kwt r rest] by blast
  have d: "distinct (result_ids rest)" and notin: "?k \<notin> set (result_ids rest)"
    using Cons.prems(1) by (simp_all add: result_ids_def)
  have none: "find (\<lambda>x. chunk_id (chunk x) = ?k) rest = None"
    using notin unfolding result_ids_def by (rule find_absent)
  obtain cs' ar' where
    res: "add_keyword_results kwt rest (cs1, ar1) = Inr (cs', ar')"
    and keys': "map fst cs' = map fst cs1 @ filter (\<lambda>i. i \<notin> set (map fst cs1)) (result_ids rest)"
    and ar_keys': "map fst ar' = map fst cs'"
    and cs'_map: "\<And>i. map_of cs' i =
        (case find (\<lambda>r. chunk_id (chunk r) = i) rest of
           None \<Rightarrow> map_of cs1 i
         | Some r \<Rightarrow> Some ((case map_of cs1 i of None \<Rightarrow> 0 | Some s \<Rightarrow> s) + kwt * score r))"
    and ar'_map: "\<And>i. map_of ar' i =
        (case find (\<lambda>r. chunk_id (chunk r) = i) rest of
           None \<Rightarrow> map_of ar1 i
         | Some r \<Rightarrow> Some (case map_of ar1 i of
                             None \<Rightarrow> r\<lparr>relevance_type := ''keyword''\<rparr>
                           | Some stored \<Rightarrow> stored\<lparr>relevance_type := ''hybrid''\<rparr>))"
    using Cons.IH [OF d keys1] by blast
  have A: "map fst cs' = map fst cs @ filter (\<lambda>i. i \<notin> set (map fst cs)) (result_ids (r # rest))"
  proof (cases "?k \<in> set (map fst cs)")
    case True
    then show ?thesis
      using keys' cs1_keys by (simp add: result_ids_def)
  next
    case False
    have "filter (\<lambda>i. i \<notin> set (map fst cs @ [?k])) (result_ids rest) =
          filter (\<lambda>i. i \<notin> set (map fst cs)) (result_ids rest)"
      using notin by (intro filter_cong refl) auto
    then show ?thesis
      using keys' cs1_keys False by (simp add: result_ids_def)
  qed
  have C: "map_of cs' i =
        (case find (\<lambda>r. chunk_id (chunk r) = i) (r # rest) of
           None \<Rightarrow> map_of cs i
         | Some r \<Rightarrow> Some ((case map_of cs i of None \<Rightarrow> 0 | Some s \<Rightarrow> s) + kwt * score r))" for i
  proof (cases "i = ?k")
    case True
    show ?thesis
      unfolding True cs'_map [of ?k] none by (simp add: cs1_map)
  next
    case False
    then have f: "find (\<lambda>r. chunk_id (chunk r) = i) (r # rest) = find (\<lambda>r. chunk_id (chunk r) = i) rest"
      by auto
    have e: "map_of cs1 i = map_of cs i"
      using False by (simp add: cs1_map)
    show ?thesis
      unfolding f cs'_map [of i] e by (rule refl)
  qed
  have D: "map_of ar' i =
        (case find (\<lambda>r. chunk_id (chunk r) = i) (r # rest) of
           None \<Rightarrow> map_of ar i
         | Some r \<Rightarrow> Some (case map_of ar i of
                             None \<Rightarrow> r\<lparr>relevance_type := ''keyword''\<rparr>
                           | Some stored \<Rightarrow> stored\<lparr>relevance_type := ''hybrid''\<rparr>))" for i
  proof (cases "i = ?k")
    case True
    show ?thesis
      unfolding True ar'_map [of ?k] none by (simp add: ar1_map)
  next
    case False
    then have f: "find (\<lambda>r. chunk_id (chunk r) = i) (r # rest) = find (\<lambda>r. chunk_id (chunk r) = i) rest"
      by auto
    have e: "map_of ar1 i = map_of ar i"
      using False by (simp add: ar1_map)
    show ?thesis
      unfolding f ar'_map [of i] e by (rule refl)
  qed
  have "add_keyword_results kwt (r # rest) (cs, ar) = Inr (cs', ar')"
    using step res by simp
  then show ?case
    using A ar_keys' C D by blast
qed

lemma collect_results_total:
  "set (map fst items) \<subseteq> set (map fst ar) \<Longrightarrow>
   collect_results items ar = Inr (map (\<lambda>p. (the (map_of ar (fst p)))\<lparr>score := snd p\<rparr>) items)"
proof (induction items)
  case Nil
  show ?case by simp
next
  case (Cons p items)
  obtain i s where p: "p = (i, s)" by (cases p)
  have "i \<in> fst ` set ar" using Cons.prems by (simp add: p)
  then have "map_of ar i \<noteq> None" by (simp add: map_of_eq_None_iff)
  then obtain r where r: "map_of ar i = Some r" by blast
  have "collect_results items ar = Inr (map (\<lambda>p. (the (map_of ar (fst p)))\<lparr>score := snd p\<rparr>) items)"
    using Cons.prems by (intro Cons.IH) simp
  then show ?case by (simp add: p r)
qed

lemma dict_items: "distinct (map fst d) \<Longrightarrow> d = map (\<lambda>i. (i, the (map_of d i))) (map fst d)"
proof (induction d)
  case Nil
  show ?case by simp
next
  case (Cons p d)
  obtain k v where p: "p = (k, v)" by (cases p)
  have k: "k \<notin> fst ` set d" and dd: "distinct (map fst d)"
    using Cons.prems by (simp_all add: p)
  have 1: "map (\<lambda>i. (i, the (map_of (p # d) i))) (map fst d) = map (\<lambda>i. (i, the (map_of d i))) (map fst d)"
    using k by (intro map_cong refl) (auto simp: p)
  have 2: "map (\<lambda>i. (i, the (map_of d i))) (map fst d) = d"
    by (rule sym) (rule Cons.IH [OF dd])
  have 3: "the (map_of (p # d) k) = v"
    by (simp add: p)
  have "map (\<lambda>i. (i, the (map_of (p # d) i))) (map fst (p # d)) =
        (k, the (map_of (p # d) k)) # map (\<lambda>i. (i, the (map_of (p # d) i))) (map fst d)"
    by (simp only: p list.map fst_conv)
  also have "\<dots> = (k, v) # d"
    by (simp only: 1 2 3)
  finally show ?case by (simp only: p)
qed

lemma map_of_keyed:
  "distinct (map k xs) \<Longrightarrow> x \<in> set xs \<Longrightarrow> map_of (map (\<lambda>y. (k y, f y)) xs) (k x) = Some (f x)"
  by (induction xs) (auto simp: image_iff)

lemma map_of_keyed_absent:
  "i \<notin> set (map k xs) \<Longrightarrow> map_of (map (\<lambda>y. (k y, f y)) xs) i = None"
  by (induction xs) auto

lemma score_in_present:
  "distinct (result_ids rs) \<Longrightarrow> r \<in> set rs \<Longrightarrow> score_in rs (chunk_id (chunk r)) = score r"
  unfolding score_in_def result_ids_def
  by (simp add: find_distinct [where f = "\<lambda>r. chunk_id (chunk r)"])

lemma score_in_absent: "i \<notin> set (result_ids rs) \<Longrightarrow> score_in rs i = 0"
  unfolding score_in_def result_ids_def
  by (simp add: find_absent [where f = "\<lambda>r. chunk_id (chunk r)"])

text \<open>
  What \<open>combine_search_results\<close> computes when each list names every chunk at most once:
  the fused results, sorted by their score, descending and stable. It never raises.
\<close>

lemma combine_search_results_fused:
  assumes ds: "distinct (result_ids sem)" and dk: "distinct (result_ids kw)"
  shows "combine_search_results sem kw sw kwt =
           Inr (py_sorted_reverse score (fused_results sw kwt sem kw))"
proof -
  let ?rid = "\<lambda>r. chunk_id (chunk r)"
  let ?cs0 = "map (\<lambda>r. (?rid r, sw * score r)) sem"
  let ?ar0 = "map (\<lambda>r. (?rid r, r)) sem"
  have sem0: "add_semantic_results sw sem ([], []) = (?cs0, ?ar0)"
    using add_semantic_results_distinct [of "[]" sem "[]" sw] ds by simp
  have keys0: "map fst ?cs0 = result_ids sem" "map fst ?ar0 = map fst ?cs0"
    by (simp_all add: result_ids_def comp_def)
  obtain cs' ar' where
    res: "add_keyword_results kwt kw (?cs0, ?ar0) = Inr (cs', ar')"
    and keys': "map fst cs' = map fst ?cs0 @ filter (\<lambda>i. i \<notin> set (map fst ?cs0)) (result_ids kw)"
    and ar_keys': "map fst ar' = map fst cs'"
    and cs'_map: "\<And>i. map_of cs' i =
        (case find (\<lambda>r. ?rid r = i) kw of
           None \<Rightarrow> map_of ?cs0 i
         | Some r \<Rightarrow> Some ((case map_of ?cs0 i of None \<Rightarrow> 0 | Some s \<Rightarrow> s) + kwt * score r))"
    and ar'_map: "\<And>i. map_of ar' i =
        (case find (\<lambda>r. ?rid r = i) kw of
           None \<Rightarrow> map_of ?ar0 i
         | Some r \<Rightarrow> Some (case map_of ?ar0 i of
                             None \<Rightarrow> r\<lparr>relevance_type := ''keyword''\<rparr>
                           | Some stored \<Rightarrow> stored\<lparr>relevance_type := ''hybrid''\<rparr>))"
    using add_keyword_results_spec [OF dk keys0(2), of kwt] by blast
  have order: "map fst cs' =
      result_ids sem @ map ?rid (filter (\<lambda>r. ?rid r \<notin> set (result_ids sem)) kw)"
    unfolding keys' keys0(1) by (simp add: result_ids_def filter_map comp_def)
  have dist: "distinct (map fst cs')"
    unfolding keys' keys0(1) using ds dk by (auto simp: distinct_filter)
  let ?g = "\<lambda>p. (the (map_of ar' (fst p)))\<lparr>score := snd p\<rparr>"
  let ?h = "\<lambda>i. (the (map_of ar' i))\<lparr>score := the (map_of cs' i)\<rparr>"
  have sem_entry: "?h (?rid r) =
      r\<lparr>score := fused_score sw kwt sem kw (?rid r),
         relevance_type := (if ?rid r \<in> set (result_ids kw) then ''hybrid'' else relevance_type r)\<rparr>"
    if r: "r \<in> set sem" for r
  proof -
    have c0: "map_of ?cs0 (?rid r) = Some (sw * score r)"
      using ds r unfolding result_ids_def by (rule map_of_keyed)
    have a0: "map_of ?ar0 (?rid r) = Some r"
      using ds r unfolding result_ids_def by (rule map_of_keyed)
    have s: "score_in sem (?rid r) = score r"
      using ds r by (rule score_in_present)
    show ?thesis
    proof (cases "?rid r \<in> set (result_ids kw)")
      case True
      then obtain k where k: "find (\<lambda>x. ?rid x = ?rid r) kw = Some k" "k \<in> set kw" "?rid k = ?rid r"
        unfolding result_ids_def using find_present [of "?rid r" ?rid kw] by blast
      have "score_in kw (?rid k) = score k"
        using dk k(2) by (rule score_in_present)
      then have sk: "score_in kw (?rid r) = score k" by (simp add: k(3))
      have "map_of cs' (?rid r) = Some (sw * score r + kwt * score k)"
        unfolding cs'_map [of "?rid r"] k(1) by (simp add: c0)
      moreover have "map_of ar' (?rid r) = Some (r\<lparr>relevance_type := ''hybrid''\<rparr>)"
        unfolding ar'_map [of "?rid r"] k(1) by (simp add: a0)
      ultimately show ?thesis
        using True by (simp add: fused_score_def s sk)
    next
      case False
      then have n: "find (\<lambda>x. ?rid x = ?rid r) kw = None"
        unfolding result_ids_def by (rule find_absent)
      have sk: "score_in kw (?rid r) = 0"
        using False by (rule score_in_absent)
      have "map_of cs' (?rid r) = Some (sw * score r)"
        unfolding cs'_map [of "?rid r"] n by (simp add: c0)
      moreover have "map_of ar' (?rid r) = Some r"
        unfolding ar'_map [of "?rid r"] n by (simp add: a0)
      ultimately show ?thesis
        using False by (simp add: fused_score_def s sk)
    qed
  qed
  have kw_entry: "?h (?rid k) =
      k\<lparr>score := fused_score sw kwt sem kw (?rid k), relevance_type := ''keyword''\<rparr>"
    if k: "k \<in> set kw" "?rid k \<notin> set (result_ids sem)" for k
  proof -
    have f: "find (\<lambda>x. ?rid x = ?rid k) kw = Some k"
      using dk k(1) unfolding result_ids_def by (rule find_distinct)
    have c0: "map_of ?cs0 (?rid k) = None"
      using k(2) unfolding result_ids_def by (rule map_of_keyed_absent)
    have a0: "map_of ?ar0 (?rid k) = None"
      using k(2) unfolding result_ids_def by (rule map_of_keyed_absent)
    have s: "score_in sem (?rid k) = 0"
      using k(2) by (rule score_in_absent)
    have sk: "score_in kw (?rid k) = score k"
      using dk k(1) by (rule score_in_present)
    have "map_of cs' (?rid k) = Some (kwt * score k)"
      unfolding cs'_map [of "?rid k"] f by (simp add: c0)
    moreover have "map_of ar' (?rid k) = Some (k\<lparr>relevance_type := ''keyword''\<rparr>)"
      unfolding ar'_map [of "?rid k"] f by (simp add: a0)
    ultimately show ?thesis
      by (simp add: fused_score_def s sk)
  qed
  have "map ?g cs' = map ?g (map (\<lambda>i. (i, the (map_of cs' i))) (map fst cs'))"
    using dict_items [OF dist] by simp
  also have "\<dots> = map ?h (map fst cs')"
    by (simp add: comp_def)
  also have "\<dots> = fused_results sw kwt sem kw"
    unfolding order fused_results_def result_ids_def
    using sem_entry kw_entry by (simp add: result_ids_def)
  finally have entries: "map ?g cs' = fused_results sw kwt sem kw" .
  have "set (map fst (py_sorted_reverse snd cs')) \<subseteq> set (map fst ar')"
    by (simp add: set_py_sorted_reverse ar_keys')
  then have "collect_results (py_sorted_reverse snd cs') ar' = Inr (map ?g (py_sorted_reverse snd cs'))"
    by (rule collect_results_total)
  also have "map ?g (py_sorted_reverse snd cs') = py_sorted_reverse score (map ?g cs')"
    unfolding py_sorted_reverse_def
    using sort_key_map [of ?g "\<lambda>r. - score r" cs'] by simp
  finally show ?thesis
    unfolding combine_search_results_def sem0 res entries by simp
qed

lemma result_ids_fused_results:
  "result_ids (fused_results sw kwt sem kw) =
     result_ids sem @ filter (\<lambda>i. i \<notin> set (result_ids sem)) (result_ids kw)"
  by (simp add: fused_results_def result_ids_def filter_map comp_def)

lemma fused_results_scores_labels:
  assumes "\<forall>r \<in> set sem. relevance_type r = ''semantic''" "r \<in> set (fused_results sw kwt sem kw)"
  shows "score r = fused_score sw kwt sem kw (chunk_id (chunk r)) \<and>
         relevance_type r = signal_label sem kw (chunk_id (chunk r))"
proof -
  consider r0 where "r0 \<in> set sem"
      "r = r0\<lparr>score := fused_score sw kwt sem kw (chunk_id (chunk r0)),
              relevance_type := (if chunk_id (chunk r0) \<in> set (result_ids kw) then ''hybrid''
                                 else relevance_type r0)\<rparr>"
    | k where "k \<in> set kw" "chunk_id (chunk k) \<notin> set (result_ids sem)"
      "r = k\<lparr>score := fused_score sw kwt sem kw (chunk_id (chunk k)), relevance_type := ''keyword''\<rparr>"
    using assms(2) unfolding fused_results_def by auto
  then show ?thesis
  proof cases
    case 1
    have "chunk_id (chunk r0) \<in> set (result_ids sem)"
      using 1(1) by (simp add: result_ids_def)
    then show ?thesis
      using 1 assms(1) by (simp add: signal_label_def)
  next
    case 2
    then show ?thesis by (simp add: signal_label_def)
  qed
qed

text \<open>
  Claim C4. Let the semantic and the keyword result set each name a chunk at most once,
  the semantic results carrying the label \<open>semantic\<close> that \<open>search\<close> gives them. Then
  \<open>combine_search_results\<close> returns one result for each chunk id of either set, and no
  other; its score is \<open>semantic_weight\<close> times the semantic score plus \<open>keyword_weight\<close>
  times the keyword score, a missing score counting as 0; its label is \<open>hybrid\<close> when the
  id is in both sets, else \<open>semantic\<close> or \<open>keyword\<close>.
\<close>

theorem hybrid_fusion_scores_and_labels:
  assumes "distinct (result_ids sem)" "distinct (result_ids kw)"
    and "\<forall>r \<in> set sem. relevance_type r = ''semantic''"
  shows "\<exists>out. combine_search_results sem kw sw kwt = Inr out \<and>
           set (result_ids out) = set (result_ids sem) \<union> set (result_ids kw) \<and>
           distinct (result_ids out) \<and>
           (\<forall>r \<in> set out. score r = fused_score sw kwt sem kw (chunk_id (chunk r)) \<and>
                          relevance_type r = signal_label sem kw (chunk_id (chunk r)))"
proof -
  let ?out = "py_sorted_reverse score (fused_results sw kwt sem kw)"
  have 1: "combine_search_results sem kw sw kwt = Inr ?out"
    using assms(1,2) by (rule combine_search_results_fused)
  have "set (result_ids ?out) = set (result_ids (fused_results sw kwt sem kw))"
    by (simp add: result_ids_def set_py_sorted_reverse)
  then have 2: "set (result_ids ?out) = set (result_ids sem) \<union> set (result_ids kw)"
    unfolding result_ids_fused_results by auto
  have "distinct (result_ids ?out) = distinct (result_ids (fused_results sw kwt sem kw))"
    unfolding result_ids_def by (rule distinct_map_py_sorted_reverse)
  then have 3: "distinct (result_ids ?out)"
    unfolding result_ids_fused_results using assms(1,2) by (auto simp: distinct_filter)
  have 4: "\<forall>r \<in> set ?out. score r = fused_score sw kwt sem kw (chunk_id (chunk r)) \<and>
                          relevance_type r = signal_label sem kw (chunk_id (chunk r))"
    unfolding set_py_sorted_reverse using fused_results_scores_labels [OF assms(3)] by blast
  show ?thesis
    using 1 2 3 4 by blast
qed

lemma example_ids:
  "result_ids example_semantic = [''a'', ''b'']" "result_ids example_keyword = [''b'', ''c'']"
  by (simp_all add: result_ids_def example_semantic_def example_keyword_def hit_def stored_chunk_def)

lemma example_fused:
  "fused_results 0.7 0.3 example_semantic example_keyword =
     [hit ''a'' 0.63 ''semantic'' [], hit ''b'' 0.59 ''hybrid'' [], hit ''c'' 0.18 ''keyword'' []]"
  by (simp add: fused_results_def fused_score_def score_in_def example_ids)
     (simp add: example_semantic_def example_keyword_def hit_def stored_chunk_def)

lemma example_combined_results:
  "combine_search_results example_semantic example_keyword 0.7 0.3 =
     Inr [hit ''a'' 0.63 ''semantic'' [], hit ''b'' 0.59 ''hybrid'' [], hit ''c'' 0.18 ''keyword'' []]"
proof -
  have "combine_search_results example_semantic example_keyword 0.7 0.3 =
      Inr (py_sorted_reverse score (fused_results 0.7 0.3 example_semantic example_keyword))"
    by (rule combine_search_results_fused) (simp_all add: example_ids)
  then show ?thesis
    by (simp add: example_fused py_sorted_reverse_def hit_def)
qed

theorem hybrid_fusion_scores_and_labels_witness:
  "distinct (result_ids example_semantic) \<and> distinct (result_ids example_keyword) \<and>
   combine_search_results example_semantic example_keyword 0.7 0.3 =
     Inr [hit ''a'' 0.63 ''semantic'' [], hit ''b'' 0.59 ''hybrid'' [], hit ''c'' 0.18 ''keyword'' []] \<and>
   fused_score 0.7 0.3 example_semantic example_keyword ''b'' = 0.59 \<and>
   signal_label example_semantic example_keyword ''b'' = ''hybrid'' \<and>
   fused_score 0.7 0.3 example_semantic example_keyword ''c'' = 0.18 \<and>
   signal_label example_semantic example_keyword ''c'' = ''keyword''"
proof -
  have d: "distinct (result_ids example_semantic)" "distinct (result_ids example_keyword)"
    by (simp_all add: example_ids)
  have l: "\<forall>r \<in> set example_semantic. relevance_type r = ''semantic''"
    by (simp add: example_semantic_def hit_def)
  obtain out where out: "combine_search_results example_semantic example_keyword 0.7 0.3 = Inr out"
    and p: "\<forall>r \<in> set out. score r = fused_score 0.7 0.3 example_semantic example_keyword (chunk_id (chunk r)) \<and>
             relevance_type r = signal_label example_semantic example_keyword (chunk_id (chunk r))"
    using hybrid_fusion_scores_and_labels [OF d l, of "0.7" "0.3"] by blast
  have o: "out = [hit ''a'' 0.63 ''semantic'' [], hit ''b'' 0.59 ''hybrid'' [], hit ''c'' 0.18 ''keyword'' []]"
    using out by (simp add: example_combined_results)
  have "fused_score 0.7 0.3 example_semantic example_keyword ''b'' = 0.59 \<and>
        signal_label example_semantic example_keyword ''b'' = ''hybrid'' \<and>
        fused_score 0.7 0.3 example_semantic example_keyword ''c'' = 0.18 \<and>
        signal_label example_semantic example_keyword ''c'' = ''keyword''"
    using p unfolding o by (simp add: hit_def stored_chunk_def)
  then show ?thesis
    using d by (simp add: example_combined_results)
qed

text \<open>
  Claim C5, as amended. The hit list is sorted by final score, descending, and the sort
  is stable: hits of equal score keep the order they had before the sort, which is the
  order of the input of \<open>filter_and_rank_results\<close> and, in \<open>combine_search_results\<close>, the
  order in which the chunks entered (the semantic results, then the keyword results for
  new chunks). The chunk id is never compared. The list is a function of the result
  lists, the weights, the threshold and the context type, so equal inputs give equal
  lists.
\<close>

theorem ranking_sorted_stable:
  "sorted_wrt (\<lambda>a b. score a \<ge> score b) (filter_and_rank_results th rs question ctx fs) \<and>
   (\<forall>s. filter (\<lambda>r. score r = s) (filter_and_rank_results th rs question ctx fs) =
        filter (\<lambda>r. score r = s) (map (boost_result ctx) (filter (\<lambda>r. th \<le> score r) rs))) \<and>
   (distinct (result_ids sem) \<and> distinct (result_ids kw) \<longrightarrow>
      (\<exists>out. combine_search_results sem kw sw kwt = Inr out \<and>
             sorted_wrt (\<lambda>a b. score a \<ge> score b) out \<and>
             (\<forall>s. filter (\<lambda>r. score r = s) out =
                  filter (\<lambda>r. score r = s) (fused_results sw kwt sem kw))))"
proof (intro conjI impI allI)
  show "sorted_wrt (\<lambda>a b. score a \<ge> score b) (filter_and_rank_results th rs question ctx fs)"
    unfolding filter_and_rank_results_def Let_def by (rule py_sorted_reverse_sorted)
  show "filter (\<lambda>r. score r = s) (filter_and_rank_results th rs question ctx fs) =
        filter (\<lambda>r. score r = s) (map (boost_result ctx) (filter (\<lambda>r. th \<le> score r) rs))" for s
    unfolding filter_and_rank_results_def Let_def by (rule py_sorted_reverse_stable)
  assume "distinct (result_ids sem) \<and> distinct (result_ids kw)"
  then have "combine_search_results sem kw sw kwt =
      Inr (py_sorted_reverse score (fused_results sw kwt sem kw))"
    by (intro combine_search_results_fused) simp_all
  then show "\<exists>out. combine_search_results sem kw sw kwt = Inr out \<and>
             sorted_wrt (\<lambda>a b. score a \<ge> score b) out \<and>
             (\<forall>s. filter (\<lambda>r. score r = s) out =
                  filter (\<lambda>r. score r = s) (fused_results sw kwt sem kw))"
    using py_sorted_reverse_sorted [of score] py_sorted_reverse_stable [of score] by blast
qed

lemma demo_hybrid_search:
  "hybrid_search demo_ext () ''How do I install it?'' 10 0.7 0.3 =
     Inr [hit ''0a1b2c3d_001'' 0.7 ''semantic'' [''setup''], hit ''0a1b2c3d_000'' 0.7 ''semantic'' []]"
proof -
  let ?sem = "[hit ''0a1b2c3d_001'' 1 ''semantic'' [''setup''], hit ''0a1b2c3d_000'' 1 ''semantic'' []]"
  have ids: "result_ids ?sem = [''0a1b2c3d_001'', ''0a1b2c3d_000'']" "result_ids [] = []"
    by (simp_all add: result_ids_def hit_def stored_chunk_def)
  have "combine_search_results ?sem [] 0.7 0.3 =
      Inr (py_sorted_reverse score (fused_results 0.7 0.3 ?sem []))"
    by (rule combine_search_results_fused) (simp_all add: ids)
  moreover have "fused_results 0.7 0.3 ?sem [] =
      [hit ''0a1b2c3d_001'' 0.7 ''semantic'' [''setup''], hit ''0a1b2c3d_000'' 0.7 ''semantic'' []]"
    by (simp add: fused_results_def fused_score_def score_in_def ids)
       (simp add: hit_def stored_chunk_def)
  ultimately have c: "combine_search_results ?sem [] 0.7 0.3 =
      Inr [hit ''0a1b2c3d_001'' 0.7 ''semantic'' [''setup''], hit ''0a1b2c3d_000'' 0.7 ''semantic'' []]"
    by (simp add: py_sorted_reverse_def hit_def)
  show ?thesis
    by (simp add: hybrid_search_def search_def demo_ext_def c)
qed

lemma demo_retrieval:
  "retrieve_context demo_ext 0.7 () ''How do I install it?'' 5 ''general'' =
     Inr [hit ''0a1b2c3d_001'' 0.7 ''semantic'' [''setup''], hit ''0a1b2c3d_000'' 0.7 ''semantic'' []]"
  unfolding retrieve_context_def Let_def
  by (simp add: demo_hybrid_search filter_and_rank_results_def boost_result_def
      py_sorted_reverse_def hit_def)

theorem ranking_sorted_stable_witness:
  "distinct (result_ids example_semantic) \<and> distinct (result_ids example_keyword) \<and>
   combine_search_results example_semantic example_keyword 0.7 0.3 =
     Inr [hit ''a'' 0.63 ''semantic'' [], hit ''b'' 0.59 ''hybrid'' [], hit ''c'' 0.18 ''keyword'' []] \<and>
   sorted_wrt (\<lambda>a b. score a \<ge> score b)
     [hit ''a'' 0.63 ''semantic'' [], hit ''b'' 0.59 ''hybrid'' [], hit ''c'' 0.18 ''keyword'' []]"
proof -
  have d: "distinct (result_ids example_semantic) \<and> distinct (result_ids example_keyword)"
    by (simp add: example_ids)
  obtain out where "combine_search_results example_semantic example_keyword 0.7 0.3 = Inr out"
    "sorted_wrt (\<lambda>a b. score a \<ge> score b) out"
    using ranking_sorted_stable [where sem = example_semantic and kw = example_keyword
        and sw = "0.7" and kwt = "0.3" and rs = "[]" and th = 0 and question = "[]"
        and ctx = "[]" and fs = "[]"] d
    by blast
  then show ?thesis
    using d by (simp add: example_combined_results)
qed

text \<open>
  The claim as stated fails: the semantic search returns two chunks with the same score,
  the chunk with the larger id first; the ranked list keeps that order, although the
  other id is the smaller one.
\<close>

theorem tie_break_by_chunk_id_counterexample:
  "retrieve_context demo_ext 0.7 () ''How do I install it?'' 5 ''general'' =
     Inr [hit ''0a1b2c3d_001'' 0.7 ''semantic'' [''setup''], hit ''0a1b2c3d_000'' 0.7 ''semantic'' []] \<and>
   score (hit ''0a1b2c3d_001'' 0.7 ''semantic'' [''setup'']) =
     score (hit ''0a1b2c3d_000'' 0.7 ''semantic'' []) \<and>
   ''0a1b2c3d_000'' < ''0a1b2c3d_001''"
  by (simp add: demo_retrieval) (simp add: hit_def)

text \<open>
  Claim C6 holds of the specification and not of the code: the boosting loop has no
  branch for the context type \<open>setup\<close>, and under \<open>tutorial\<close> it looks for the tag \<open>code\<close>
  only, although \<open>create_search_filters\<close> expects \<open>setup\<close>, and \<open>tutorial\<close> or \<open>code\<close>. Under
  \<open>setup\<close> no result is ever boosted; a hit tagged \<open>setup\<close> with score 0.8, above the
  threshold, keeps the score 0.8 where the claim gives it 0.96, and so does a hit
  tagged \<open>tutorial\<close> under \<open>tutorial\<close>.
\<close>

theorem setup_context_not_boosted:
  "boost_result ''setup'' r = r \<and>
   create_search_filters ''How do I install it?'' ''setup'' = [(''content_types'', [''setup''])] \<and>
   content_types (chunk setup_hit) = [''setup''] \<and> score setup_hit = 0.8 \<and>
   filter_and_rank_results 0.7 [setup_hit] ''How do I install it?'' ''setup''
     (create_search_filters ''How do I install it?'' ''setup'') = [setup_hit] \<and>
   create_search_filters ''Show me an example'' ''tutorial'' =
     [(''content_types'', [''tutorial'', ''code''])] \<and>
   content_types (chunk tutorial_hit) = [''tutorial''] \<and>
   filter_and_rank_results 0.7 [tutorial_hit] ''Show me an example'' ''tutorial''
     (create_search_filters ''Show me an example'' ''tutorial'') = [tutorial_hit]"
proof -
  have 1: "boost_result ''setup'' r = r"
    by (simp add: boost_result_def)
  have 2: "boost_result ''setup'' setup_hit = setup_hit"
    by (simp add: boost_result_def)
  have 3: "boost_result ''tutorial'' tutorial_hit = tutorial_hit"
    by (simp add: boost_result_def tutorial_hit_def hit_def stored_chunk_def)
  have 4: "score setup_hit = 0.8" "score tutorial_hit = 0.8"
    "content_types (chunk setup_hit) = [''setup'']"
    "content_types (chunk tutorial_hit) = [''tutorial'']"
    by (simp_all add: setup_hit_def tutorial_hit_def hit_def stored_chunk_def)
  show ?thesis
    by (simp add: 1 2 3 4 create_search_filters_def filter_and_rank_results_def
        py_sorted_reverse_def)
qed

section \<open>The response cache\<close>

lemma demo_cache_key:
  "create_cache_key demo_ext ''How do I install it?'' ''auto'' 5 = ''How do I install it?|auto|5''"
  by (simp add: create_cache_key_def demo_ext_def decimal.simps digit_char_def)

lemma query_hit:
  assumes "cache_lookup cfg (now_lookup clk) st (create_cache_key ext question context_type n) = Some r"
  shows "query ext cfg clk st question context_type n True stream =
           (Response r, st\<lparr>metrics := (metrics st)\<lparr>cache_hits := cache_hits (metrics st) + 1\<rparr>\<rparr>)"
  using assms by (simp add: query_def)

text \<open>
  The part of \<open>query\<close> after the cache check; it reads the vector store and writes the
  cache and the metrics.
\<close>

lemma query_miss:
  assumes "(if use_cache then cache_lookup cfg (now_lookup clk) st
              (create_cache_key ext question context_type n) else None) = None"
  shows "query ext cfg clk st question context_type n use_cache stream =
     (case retrieve_context ext (similarity_threshold cfg) (vector_store st) question n context_type of
        Inl e \<Rightarrow> (Response (error_response question e (elapsed clk)), st)
      | Inr search_results \<Rightarrow>
          if stream then (Streaming question search_results, st)
          else
            (case generate_response ext question search_results of
               Inl e \<Rightarrow> (Response (error_response question e (elapsed clk)), st)
             | Inr resp \<Rightarrow>
                 (Response (resp\<lparr>response_time := elapsed clk\<rparr>),
                  update_metrics
                    (if use_cache
                     then cache_response (now_store clk) st
                            (create_cache_key ext question context_type n)
                            (resp\<lparr>response_time := elapsed clk\<rparr>)
                     else st)
                    (resp\<lparr>response_time := elapsed clk\<rparr>))))"
  unfolding query_def Let_def assms by simp

lemma cache_hits_update_metrics: "cache_hits (metrics (update_metrics st r)) = cache_hits (metrics st)"
  by (simp add: update_metrics_def Let_def)

text \<open>The two sides of the TTL, for an entry that the cache holds.\<close>

lemma cache_entry_by_age:
  assumes "cache st (create_cache_key ext question context_type n) = Some item"
  shows "(now_lookup clk < timestamp item + timedelta_hours (cache_ttl_hours cfg) \<longrightarrow>
            query ext cfg clk st question context_type n True stream =
              (Response (response item),
               st\<lparr>metrics := (metrics st)\<lparr>cache_hits := cache_hits (metrics st) + 1\<rparr>\<rparr>)) \<and>
         (timestamp item + timedelta_hours (cache_ttl_hours cfg) \<le> now_lookup clk \<longrightarrow>
            cache_lookup cfg (now_lookup clk) st (create_cache_key ext question context_type n) = None \<and>
            fst (query ext cfg clk st question context_type n True stream) =
              fst (query ext cfg clk
                     (st\<lparr>cache := (cache st)(create_cache_key ext question context_type n := None)\<rparr>)
                     question context_type n True stream) \<and>
            cache_hits (metrics (snd (query ext cfg clk st question context_type n True stream))) =
              cache_hits (metrics st))"
proof (intro conjI impI)
  let ?key = "create_cache_key ext question context_type n"
  assume "now_lookup clk < timestamp item + timedelta_hours (cache_ttl_hours cfg)"
  then have "cache_lookup cfg (now_lookup clk) st ?key = Some (response item)"
    using assms by (simp add: cache_lookup_def is_cache_valid_def Let_def)
  then show "query ext cfg clk st question context_type n True stream =
      (Response (response item),
       st\<lparr>metrics := (metrics st)\<lparr>cache_hits := cache_hits (metrics st) + 1\<rparr>\<rparr>)"
    by (rule query_hit)
next
  let ?key = "create_cache_key ext question context_type n"
  let ?st' = "st\<lparr>cache := (cache st)(?key := None)\<rparr>"
  assume late: "timestamp item + timedelta_hours (cache_ttl_hours cfg) \<le> now_lookup clk"
  then show miss: "cache_lookup cfg (now_lookup clk) st ?key = None"
    using assms by (simp add: cache_lookup_def is_cache_valid_def Let_def)
  have miss': "cache_lookup cfg (now_lookup clk) ?st' ?key = None"
    by (simp add: cache_lookup_def)
  have 1: "(if True then cache_lookup cfg (now_lookup clk) st ?key else None) = None"
    using miss by simp
  have 2: "(if True then cache_lookup cfg (now_lookup clk) ?st' ?key else None) = None"
    using miss' by simp
  show "fst (query ext cfg clk st question context_type n True stream) =
        fst (query ext cfg clk ?st' question context_type n True stream)"
    unfolding query_miss [OF 1] query_miss [OF 2]
    by (simp split: sum.splits)
  show "cache_hits (metrics (snd (query ext cfg clk st question context_type n True stream))) =
        cache_hits (metrics st)"
    unfolding query_miss [OF 1]
    by (simp add: cache_hits_update_metrics cache_response_def split: sum.splits)
qed

text \<open>
  Claim C7. \<open>cache_response\<close> stores a response under its key with the clock reading
  \<open>T\<close> of the write as timestamp. While the cache holds that entry, a lookup of the key
  at any reading strictly before \<open>T\<close> plus the TTL returns the cached response and counts
  a cache hit; a lookup at or after \<open>T\<close> plus the TTL is a miss: the query is answered as
  if the entry were absent, and no hit is counted.
\<close>

theorem cache_ttl:
  assumes "cache st (create_cache_key ext question context_type n) = Some item"
  shows "cache (cache_response T st0 cache_key resp) cache_key =
           Some \<lparr> response = resp, timestamp = T \<rparr> \<and>
         (now_lookup clk < timestamp item + timedelta_hours (cache_ttl_hours cfg) \<longrightarrow>
            query ext cfg clk st question context_type n True stream =
              (Response (response item),
               st\<lparr>metrics := (metrics st)\<lparr>cache_hits := cache_hits (metrics st) + 1\<rparr>\<rparr>)) \<and>
         (timestamp item + timedelta_hours (cache_ttl_hours cfg) \<le> now_lookup clk \<longrightarrow>
            cache_lookup cfg (now_lookup clk) st (create_cache_key ext question context_type n) = None \<and>
            fst (query ext cfg clk st question context_type n True stream) =
              fst (query ext cfg clk
                     (st\<lparr>cache := (cache st)(create_cache_key ext question context_type n := None)\<rparr>)
                     question context_type n True stream) \<and>
            cache_hits (metrics (snd (query ext cfg clk st question context_type n True stream))) =
              cache_hits (metrics st))"
proof -
  have "cache (cache_response T st0 cache_key resp) cache_key =
           Some \<lparr> response = resp, timestamp = T \<rparr>"
    by (simp add: cache_response_def)
  then show ?thesis
    using cache_entry_by_age [OF assms, of clk cfg stream] by blast
qed

theorem cache_ttl_witness:
  "cache warm_system (create_cache_key demo_ext ''How do I install it?'' ''auto'' 5) =
     Some \<lparr> response = canned_response ''How do I install it?'', timestamp = 0 \<rparr> \<and>
   query demo_ext demo_config (clock_at 86399999999) warm_system ''How do I install it?'' ''auto'' 5
       True False =
     (Response (canned_response ''How do I install it?''),
      warm_system\<lparr>metrics := demo_metrics\<lparr>cache_hits := 1\<rparr>\<rparr>) \<and>
   cache_lookup demo_config 86400000000 warm_system
     (create_cache_key demo_ext ''How do I install it?'' ''auto'' 5) = None \<and>
   cache_hits (metrics (snd (query demo_ext demo_config (clock_at 86400000000) warm_system
     ''How do I install it?'' ''auto'' 5 True False))) = 0"
proof -
  have h: "cache warm_system (create_cache_key demo_ext ''How do I install it?'' ''auto'' 5) =
     Some \<lparr> response = canned_response ''How do I install it?'', timestamp = 0 \<rparr>"
    by (simp add: demo_cache_key warm_system_def)
  have early: "now_lookup (clock_at 86399999999) <
      timestamp \<lparr> response = canned_response ''How do I install it?'', timestamp = 0 \<rparr> +
        timedelta_hours (cache_ttl_hours demo_config)"
    by (simp add: clock_at_def timedelta_hours_def demo_config_def)
  have late: "timestamp \<lparr> response = canned_response ''How do I install it?'', timestamp = 0 \<rparr> +
        timedelta_hours (cache_ttl_hours demo_config) \<le> now_lookup (clock_at 86400000000)"
    by (simp add: clock_at_def timedelta_hours_def demo_config_def)
  have m: "metrics warm_system = demo_metrics" "cache_hits demo_metrics = 0"
    by (simp_all add: warm_system_def demo_metrics_def)
  show ?thesis
    using cache_ttl [OF h, where clk = "clock_at 86399999999" and cfg = demo_config
        and stream = False and T = 0 and ?st0.0 = warm_system and cache_key = "[]"
        and resp = "canned_response []"] early
      cache_ttl [OF h, where clk = "clock_at 86400000000" and cfg = demo_config
        and stream = False and T = 0 and ?st0.0 = warm_system and cache_key = "[]"
        and resp = "canned_response []"] late h
    by (simp add: m clock_at_def)
qed

text \<open>
  Claim C8, as amended. \<open>index_documentation\<close> writes the vector store only. When it
  completes, the response cache is what it was before: an entry that was a hit before
  the rebuild is a hit right after it, with the same response.
\<close>

theorem rebuild_keeps_cache:
  assumes "index_documentation ext st chunks = Inr st'"
  shows "cache st' = cache st \<and> metrics st' = metrics st \<and>
         cache_lookup cfg now st' cache_key = cache_lookup cfg now st cache_key"
proof -
  have "cache st' = cache st \<and> metrics st' = metrics st"
    using assms by (auto simp: index_documentation_def split: if_splits sum.splits)
  then show ?thesis by (simp add: cache_lookup_def)
qed

lemma demo_rebuild:
  "index_documentation demo_ext warm_system [stored_chunk ''0a1b2c3d_000'' []] = Inr warm_system"
  by (simp add: index_documentation_def demo_ext_def warm_system_def)

theorem rebuild_keeps_cache_witness:
  "index_documentation demo_ext warm_system [stored_chunk ''0a1b2c3d_000'' []] = Inr warm_system \<and>
   cache_lookup demo_config 1 warm_system ''How do I install it?|auto|5'' =
     Some (canned_response ''How do I install it?'')"
proof -
  have "cache_lookup demo_config 1 warm_system ''How do I install it?|auto|5'' =
     Some (canned_response ''How do I install it?'')"
    by (simp add: cache_lookup_def warm_system_def is_cache_valid_def demo_config_def
        timedelta_hours_def)
  then show ?thesis
    using rebuild_keeps_cache [OF demo_rebuild, of demo_config 1 "''How do I install it?|auto|5''"]
      demo_rebuild
    by simp
qed

text \<open>
  The claim as stated fails: the system holds a cached response written at reading 0;
  the index is rebuilt; the same query, one microsecond later, is answered from the
  cache and counted as a hit.
\<close>

theorem rebuild_invalidation_counterexample:
  "cache_lookup demo_config 0 warm_system
     (create_cache_key demo_ext ''How do I install it?'' ''auto'' 5) =
     Some (canned_response ''How do I install it?'') \<and>
   index_documentation demo_ext warm_system [stored_chunk ''0a1b2c3d_000'' []] = Inr warm_system \<and>
   query demo_ext demo_config (clock_at 1) warm_system ''How do I install it?'' ''auto'' 5 True False =
     (Response (canned_response ''How do I install it?''),
      warm_system\<lparr>metrics := demo_metrics\<lparr>cache_hits := 1\<rparr>\<rparr>)"
proof -
  have 0: "cache_lookup demo_config 0 warm_system
     (create_cache_key demo_ext ''How do I install it?'' ''auto'' 5) =
     Some (canned_response ''How do I install it?'')"
    by (simp add: demo_cache_key cache_lookup_def warm_system_def is_cache_valid_def
        demo_config_def timedelta_hours_def)
  have 1: "cache_lookup demo_config (now_lookup (clock_at 1)) warm_system
     (create_cache_key demo_ext ''How do I install it?'' ''auto'' 5) =
     Some (canned_response ''How do I install it?'')"
    by (simp add: demo_cache_key cache_lookup_def warm_system_def is_cache_valid_def
        demo_config_def timedelta_hours_def clock_at_def)
  have m: "metrics warm_system = demo_metrics" "cache_hits demo_metrics = 0"
    by (simp_all add: warm_system_def demo_metrics_def)
  show ?thesis
    by (simp add: 0 demo_rebuild query_hit [OF 1] m)
qed

section \<open>Retrieval when the embedding model fails, and the unused filters\<close>

lemma search_raises:
  "encode_query ext question = Inl e \<Longrightarrow> search ext vs question k fs = Inl e"
  by (simp add: search_def)

lemma hybrid_search_raises:
  "encode_query ext question = Inl e \<Longrightarrow> hybrid_search ext vs question k sw kw = Inl e"
  by (simp add: hybrid_search_def search_raises)

lemma retrieve_context_raises:
  "encode_query ext question = Inl e \<Longrightarrow> retrieve_context ext th vs question n ctx = Inl e"
  by (simp add: retrieve_context_def Let_def hybrid_search_raises)

text \<open>
  Claim C9, as amended. When the embedding model raises on a query, \<open>search\<close> raises,
  and so do \<open>hybrid_search\<close> and \<open>retrieve_context\<close>: the keyword search is not consulted
  and no ranking is produced. Unless a valid cached response exists, \<open>query\<close> catches the
  exception and returns the error response (the apology with the exception's message,
  no sources, confidence 0, no tokens), leaving the cache and the metrics as they were.
\<close>

theorem embedding_failure_gives_error_response:
  assumes "encode_query ext question = Inl e"
  shows "hybrid_search ext vs question k sw kw = Inl e \<and>
         retrieve_context ext th vs question n ctx = Inl e \<and>
         ((if use_cache then cache_lookup cfg (now_lookup clk) st
              (create_cache_key ext question ctx n) else None) = None \<longrightarrow>
          query ext cfg clk st question ctx n use_cache stream =
            (Response (error_response question e (elapsed clk)), st))"
proof (intro conjI impI)
  show "hybrid_search ext vs question k sw kw = Inl e"
    using assms by (rule hybrid_search_raises)
  show "retrieve_context ext th vs question n ctx = Inl e"
    using assms by (rule retrieve_context_raises)
  assume miss: "(if use_cache then cache_lookup cfg (now_lookup clk) st
              (create_cache_key ext question ctx n) else None) = None"
  show "query ext cfg clk st question ctx n use_cache stream =
            (Response (error_response question e (elapsed clk)), st)"
    unfolding query_miss [OF miss]
    by (simp add: retrieve_context_raises [OF assms])
qed

lemma failing_encode:
  "encode_query failing_ext ''How do I install it?'' = Inl (RaisedError ''embedding model unavailable'')"
  by (simp add: failing_ext_def demo_ext_def)

theorem embedding_failure_gives_error_response_witness:
  "encode_query failing_ext ''How do I install it?'' = Inl (RaisedError ''embedding model unavailable'') \<and>
   hybrid_search failing_ext () ''How do I install it?'' 10 0.7 0.3 =
     Inl (RaisedError ''embedding model unavailable'') \<and>
   query failing_ext demo_config (clock_at 1) warm_system ''How do I install it?'' ''auto'' 5 False False =
     (Response (error_response ''How do I install it?''
        (RaisedError ''embedding model unavailable'') 0), warm_system)"
  using embedding_failure_gives_error_response [OF failing_encode, where vs = "()" and k = 10
      and sw = "0.7" and kw = "0.3" and th = 0 and n = 5 and ctx = "''auto''" and use_cache = False
      and cfg = demo_config and clk = "clock_at 1" and st = warm_system and stream = False]
    failing_encode
  by (simp add: clock_at_def)

text \<open>
  The claim as stated fails: the embedding model raises, the keyword search alone would
  return a hit of score 0.9, and the query returns the error response with no sources.
\<close>

theorem keyword_fallback_counterexample:
  "encode_query failing_ext ''How do I install it?'' = Inl (RaisedError ''embedding model unavailable'') \<and>
   keyword_search failing_ext () ''How do I install it?'' 20 = Inr [hit ''0a1b2c3d_000'' 0.9 ''keyword'' []] \<and>
   retrieve_context failing_ext 0.7 () ''How do I install it?'' 5 ''auto'' =
     Inl (RaisedError ''embedding model unavailable'') \<and>
   fst (query failing_ext demo_config (clock_at 1) warm_system ''How do I install it?'' ''auto'' 5
          False False) =
     Response \<lparr> rr_query = ''How do I install it?'',
                answer = ''I apologize, but I encountered an error processing your question: embedding model unavailable'',
                sources = [], confidence = 0, response_time = 0, tokens_used = 0 \<rparr>"
proof -
  have miss: "(if False then cache_lookup demo_config (now_lookup (clock_at 1)) warm_system
              (create_cache_key failing_ext ''How do I install it?'' ''auto'' 5) else None) = None"
    by simp
  have k: "keyword_search failing_ext () ''How do I install it?'' 20 =
      Inr [hit ''0a1b2c3d_000'' 0.9 ''keyword'' []]"
    by (simp add: failing_ext_def demo_ext_def)
  show ?thesis
    unfolding query_miss [OF miss]
    by (simp add: failing_encode k retrieve_context_raises [OF failing_encode] error_response_def
        str_exception_def clock_at_def)
qed

text \<open>
  Claim C10. \<open>filter_and_rank_results\<close> returns the same list for any two values of its
  \<open>filters\<close> argument, and \<open>retrieve_context\<close> returns what it would return with any other
  filters in place of those \<open>create_search_filters\<close> builds: \<open>hybrid_search\<close> is called
  without filters, and the ranking never reads them.
\<close>

theorem filters_have_no_effect:
  "filter_and_rank_results th rs question ctx fs = filter_and_rank_results th rs question ctx fs' \<and>
   retrieve_context ext th vs question n ctx =
     (case hybrid_search ext vs question (n * 2) 0.7 0.3 of
        Inl e \<Rightarrow> Inl e
      | Inr search_results \<Rightarrow>
          Inr (take n (filter_and_rank_results th search_results question
                 (if ctx = ''auto'' then determine_context_type question else ctx) fs)))"
  unfolding retrieve_context_def Let_def filter_and_rank_results_def
  by (simp split: sum.splits)

text \<open>
  An instance: under the context type \<open>api\<close> the filters ask for the tag \<open>api\<close>, and
  the two chunks returned carry the tags \<open>setup\<close> and none.
\<close>

lemma filters_not_applied_example:
  "create_search_filters ''How do I install it?'' ''api'' = [(''content_types'', [''api''])] \<and>
   retrieve_context demo_ext 0.7 () ''How do I install it?'' 5 ''api'' =
     Inr [hit ''0a1b2c3d_001'' 0.7 ''semantic'' [''setup''], hit ''0a1b2c3d_000'' 0.7 ''semantic'' []]"
  unfolding retrieve_context_def Let_def
  by (simp add: demo_hybrid_search filter_and_rank_results_def boost_result_def
      py_sorted_reverse_def hit_def stored_chunk_def create_search_filters_def)

end
